theory Spec2Isabelle
  imports Main "HOL-Library.Word"
begin

unbundle bit_operations_syntax

section \<open>The auth service: data model\<close>

text \<open>
  The model follows \<^verbatim>\<open>services/platform/auth-service\<close>: the three tables of
  \<^verbatim>\<open>config/database.js\<close>, the static methods of the models \<^verbatim>\<open>User\<close>,
  \<^verbatim>\<open>PasswordReset\<close> and \<^verbatim>\<open>RefreshToken\<close>, and the route handlers
  \<^verbatim>\<open>POST /auth/signin\<close> and \<^verbatim>\<open>POST /auth/reset-password\<close>.

  Conventions.
  \<^item> A timestamp is an \<open>int\<close>: milliseconds since the epoch, as a JavaScript \<open>Date\<close> holds
    it. Every \<^verbatim>\<open>new Date()\<close> of the source is an explicit argument \<open>now\<close> of the model.
    \<^verbatim>\<open>setMinutes\<close>, \<^verbatim>\<open>setHours\<close> and \<^verbatim>\<open>setDate\<close> work on local time;
    the model takes the server's zone to have a fixed offset, so they add a fixed number of
    milliseconds.
  \<^item> A UUID and a token are a \<open>string\<close>.
  \<^item> The columns \<^verbatim>\<open>created_at\<close> and \<^verbatim>\<open>updated_at\<close> and the generated row ids of
    the two token tables are not read by any modelled operation and are left out.
  \<^item> Logging is not modelled; each \<^verbatim>\<open>try { ... } catch (error) { log; throw error }\<close> of
    the models rethrows unchanged and so is the identity on results.
\<close>

record user_row =
  uid :: string
  email :: string
  password_hash :: string
  email_verified :: bool
  email_verification_token :: "string option"
  email_verification_expires :: "int option"
  failed_login_attempts :: "int option"
  locked_until :: "int option"

record refresh_row =
  rt_user_id :: string
  rt_token :: string
  rt_expires_at :: int
  rt_revoked :: bool

record reset_row =
  pr_user_id :: string
  pr_token :: string
  pr_expires_at :: int
  pr_used :: bool

record db =
  auth_users :: "user_row list"
  auth_refresh_tokens :: "refresh_row list"
  auth_password_resets :: "reset_row list"

text \<open>
  The errors a handler can end with. \<open>StoreError\<close> is an exception of \<^verbatim>\<open>pool.query\<close>
  (connection loss, constraint violation); \<open>TypeError\<close> is JavaScript's, raised by reading a
  property of \<^verbatim>\<open>undefined\<close>. The other three are the classes of \<^verbatim>\<open>@platform/errors\<close>
  with their message.

  Modelled from the spec: \<^verbatim>\<open>TooManyRequestsError\<close> is imported by the routes from
  \<^verbatim>\<open>@platform/errors\<close>, whose source does not declare it; the spec gives it as the
  error of a locked account (status 429).
\<close>

datatype error =
    StoreError
  | TypeError
  | UnauthorizedError string
  | BadRequestError string
  | TooManyRequestsError string

datatype event =
    PasswordCompared string string
  | AccountLockedEmail string int

text \<open>
  The world a request runs in: the store; \<open>budget\<close>, the number of statements the store
  still executes before \<^verbatim>\<open>pool.query\<close> starts to throw (\<open>None\<close>: it never does);
  the operating system's random bytes, as an infinite sequence with a read position; and the
  log of the outside effects that the claims speak about.
\<close>

record world =
  db :: db
  budget :: "nat option"
  entropy :: "nat \<Rightarrow> 8 word"
  drawn :: nat
  events :: "event list"

text \<open>The environment constants, each \<^verbatim>\<open>parseInt(process.env.X) || default\<close>.\<close>

record config =
  MAX_LOGIN_ATTEMPTS :: int
  LOCKOUT_DURATION_MINUTES :: int
  EMAIL_VERIFICATION_EXPIRY_HOURS :: int
  TOKEN_EXPIRY_HOURS :: int

definition default_config :: config where
  "default_config =
     \<lparr>MAX_LOGIN_ATTEMPTS = 5, LOCKOUT_DURATION_MINUTES = 15,
      EMAIL_VERIFICATION_EXPIRY_HOURS = 24, TOKEN_EXPIRY_HOURS = 1\<rparr>"

section \<open>Asynchronous code that can throw\<close>

type_synonym 'a io = "world \<Rightarrow> (error + 'a) \<times> world"

definition returnE :: "'a \<Rightarrow> 'a io" where
  "returnE x w = (Inr x, w)"

definition throwE :: "error \<Rightarrow> 'a io" where
  "throwE e w = (Inl e, w)"

definition bindE :: "'a io \<Rightarrow> ('a \<Rightarrow> 'b io) \<Rightarrow> 'b io" where
  "bindE m f w = (case m w of (Inl e, w') \<Rightarrow> (Inl e, w') | (Inr x, w') \<Rightarrow> f x w')"

text \<open>
  \<^verbatim>\<open>query(text, params)\<close> of \<^verbatim>\<open>config/database.js\<close>: one statement, executed by
  the store on its own (the pool runs it outside any transaction). The statement is a function
  from the store to its result rows and the new store, or \<open>None\<close> when a constraint rejects
  it; then, and when the store is down, the call throws and the store is unchanged.
\<close>

definition spend :: "world \<Rightarrow> world" where
  "spend w = w\<lparr>budget := map_option (\<lambda>n. n - 1) (budget w)\<rparr>"

definition query :: "(db \<Rightarrow> ('a \<times> db) option) \<Rightarrow> 'a io" where
  "query stmt w =
     (if budget w = Some 0 then (Inl StoreError, w)
      else case stmt (db w) of
             None \<Rightarrow> (Inl StoreError, spend w)
           | Some (rows, d) \<Rightarrow> (Inr rows, (spend w)\<lparr>db := d\<rparr>))"

text \<open>\<^verbatim>\<open>crypto.randomBytes(n)\<close>: the next \<open>n\<close> bytes of the random source.\<close>

definition randomBytes :: "nat \<Rightarrow> (8 word list) io" where
  "randomBytes n w = (Inr (map (entropy w) [drawn w ..< drawn w + n]), w\<lparr>drawn := drawn w + n\<rparr>)"

definition emit :: "event \<Rightarrow> unit io" where
  "emit e w = (Inr (), w\<lparr>events := events w @ [e]\<rparr>)"

text \<open>The store executes at least \<open>n\<close> more statements.\<close>

definition accepts :: "nat \<Rightarrow> world \<Rightarrow> bool" where
  "accepts n w = (case budget w of None \<Rightarrow> True | Some k \<Rightarrow> n \<le> k)"

section \<open>Strings, times, tokens\<close>

definition lower_char :: "char \<Rightarrow> char" where
  "lower_char c =
     (let n = (of_char c :: nat) in if 65 \<le> n \<and> n \<le> 90 then char_of (n + 32) else c)"

text \<open>\<^verbatim>\<open>String.prototype.toLowerCase\<close>, on ASCII text.\<close>

definition toLowerCase :: "string \<Rightarrow> string" where
  "toLowerCase s = map lower_char s"

definition minutes_ms :: "int \<Rightarrow> int" where
  "minutes_ms m = m * 60000"

definition hours_ms :: "int \<Rightarrow> int" where
  "hours_ms h = h * 3600000"

definition days_ms :: "int \<Rightarrow> int" where
  "days_ms d = d * 86400000"

text \<open>\<^verbatim>\<open>Math.ceil(ms / (1000 * 60))\<close> on an integer number of milliseconds.\<close>

definition ceil_minutes :: "int \<Rightarrow> int" where
  "ceil_minutes ms = - ((- ms) div 60000)"

definition hex_chars :: string where
  "hex_chars = ''0123456789abcdef''"

definition hex_byte :: "8 word \<Rightarrow> string" where
  "hex_byte b = [hex_chars ! (unat b div 16), hex_chars ! (unat b mod 16)]"

text \<open>\<^verbatim>\<open>Buffer.prototype.toString('hex')\<close>: two lower-case hexadecimal digits a byte.\<close>

definition to_hex :: "8 word list \<Rightarrow> string" where
  "to_hex bs = concat (map hex_byte bs)"

text \<open>
  \<^verbatim>\<open>v4\<close> of the npm package \<^verbatim>\<open>uuid\<close>, an external library, after RFC 4122, section 4.4:
  sixteen random bytes, the high four bits of byte 6 overwritten with the version \<open>0100\<close>,
  the high two bits of byte 8 with the variant \<open>10\<close>, printed in hexadecimal in groups of
  4, 2, 2, 2 and 6 bytes joined by hyphens.
\<close>

definition uuid_stamp :: "8 word list \<Rightarrow> 8 word list" where
  "uuid_stamp rnds =
     (let r6 = ((rnds ! 6) AND 0x0f) OR 0x40;
          r8 = ((rnds ! 8) AND 0x3f) OR 0x80
      in (rnds[6 := r6])[8 := r8])"

definition uuid_format :: "8 word list \<Rightarrow> string" where
  "uuid_format b =
     to_hex (take 4 b) @ ''-'' @ to_hex (take 2 (drop 4 b)) @ ''-'' @
     to_hex (take 2 (drop 6 b)) @ ''-'' @ to_hex (take 2 (drop 8 b)) @ ''-'' @
     to_hex (take 6 (drop 10 b))"

definition uuidv4 :: "string io" where
  "uuidv4 = bindE (randomBytes 16) (\<lambda>rnds. returnE (uuid_format (uuid_stamp rnds)))"

text \<open>A number inside a template literal: its decimal digits.\<close>

function show_nat :: "nat \<Rightarrow> string" where
  "show_nat n =
     (if n < 10 then [hex_chars ! n] else show_nat (n div 10) @ [hex_chars ! (n mod 10)])"
  by pat_completeness auto
termination
  by (relation "measure id") auto

declare show_nat.simps [simp del]

definition show_int :: "int \<Rightarrow> string" where
  "show_int i = (if i < 0 then ''-'' @ show_nat (nat (- i)) else show_nat (nat i))"

text \<open>\<^verbatim>\<open>result.rows[0] || null\<close>.\<close>

definition first_row :: "'a list \<Rightarrow> 'a option" where
  "first_row rows = (case rows of [] \<Rightarrow> None | r # _ \<Rightarrow> Some r)"

text \<open>\<^verbatim>\<open>COALESCE(x, 0)\<close>.\<close>

definition coalesce0 :: "int option \<Rightarrow> int" where
  "coalesce0 x = (case x of None \<Rightarrow> 0 | Some n \<Rightarrow> n)"

text \<open>\<^verbatim>\<open>new Date(x)\<close> of a nullable timestamp column: \<^verbatim>\<open>new Date(null)\<close> is the epoch.\<close>

definition date_of :: "int option \<Rightarrow> int" where
  "date_of x = (case x of None \<Rightarrow> 0 | Some t \<Rightarrow> t)"

text \<open>\<^verbatim>\<open>UPDATE table SET ... WHERE ...\<close> on each of the three tables.\<close>

definition update_users :: "(user_row \<Rightarrow> bool) \<Rightarrow> (user_row \<Rightarrow> user_row) \<Rightarrow> db \<Rightarrow> db" where
  "update_users P f d = d\<lparr>auth_users := map (\<lambda>u. if P u then f u else u) (auth_users d)\<rparr>"

definition update_refresh ::
  "(refresh_row \<Rightarrow> bool) \<Rightarrow> (refresh_row \<Rightarrow> refresh_row) \<Rightarrow> db \<Rightarrow> db" where
  "update_refresh P f d =
     d\<lparr>auth_refresh_tokens := map (\<lambda>r. if P r then f r else r) (auth_refresh_tokens d)\<rparr>"

definition update_resets :: "(reset_row \<Rightarrow> bool) \<Rightarrow> (reset_row \<Rightarrow> reset_row) \<Rightarrow> db \<Rightarrow> db" where
  "update_resets P f d =
     d\<lparr>auth_password_resets := map (\<lambda>r. if P r then f r else r) (auth_password_resets d)\<rparr>"

text \<open>The \<^verbatim>\<open>SET\<close> clauses of the statements, as functions on one row.\<close>

definition set_password :: "string \<Rightarrow> user_row \<Rightarrow> user_row" where
  "set_password h u = u\<lparr>password_hash := h\<rparr>"

definition set_verification :: "string \<Rightarrow> int \<Rightarrow> user_row \<Rightarrow> user_row" where
  "set_verification token expiresAt u =
     u\<lparr>email_verification_token := Some token, email_verification_expires := Some expiresAt\<rparr>"

definition set_verified :: "user_row \<Rightarrow> user_row" where
  "set_verified u =
     u\<lparr>email_verified := True, email_verification_token := None,
       email_verification_expires := None\<rparr>"

definition bump_attempts :: "user_row \<Rightarrow> user_row" where
  "bump_attempts u = u\<lparr>failed_login_attempts := Some (coalesce0 (failed_login_attempts u) + 1)\<rparr>"

definition set_locked :: "int \<Rightarrow> user_row \<Rightarrow> user_row" where
  "set_locked lockedUntil u = u\<lparr>locked_until := Some lockedUntil\<rparr>"

definition clear_lockout :: "user_row \<Rightarrow> user_row" where
  "clear_lockout u = u\<lparr>failed_login_attempts := Some 0, locked_until := None\<rparr>"

definition mark_used :: "reset_row \<Rightarrow> reset_row" where
  "mark_used r = r\<lparr>pr_used := True\<rparr>"

definition mark_revoked :: "refresh_row \<Rightarrow> refresh_row" where
  "mark_revoked r = r\<lparr>rt_revoked := True\<rparr>"

section \<open>The model \<^verbatim>\<open>User\<close>\<close>

definition User_findByEmail :: "string \<Rightarrow> (user_row option) io" where
  "User_findByEmail em =
     bindE (query (\<lambda>d. Some (filter (\<lambda>u. email u = toLowerCase em) (auth_users d), d)))
       (\<lambda>rows. returnE (first_row rows))"

text \<open>
  \<^verbatim>\<open>bcrypt.compare\<close> and \<^verbatim>\<open>bcrypt.hash\<close> are external: the model takes them as the
  functions \<open>cmp\<close> and \<open>hash\<close> (the salt that \<^verbatim>\<open>bcrypt.hash\<close> draws is inside \<open>hash\<close>).
  Each comparison is logged as an event, so that a theorem can say it did not happen.
\<close>

definition User_verifyPassword ::
  "(string \<Rightarrow> string \<Rightarrow> bool) \<Rightarrow> string \<Rightarrow> string \<Rightarrow> bool io" where
  "User_verifyPassword cmp password passwordHash =
     bindE (emit (PasswordCompared password passwordHash))
       (\<lambda>_. returnE (cmp password passwordHash))"

definition User_updatePassword :: "(string \<Rightarrow> string) \<Rightarrow> string \<Rightarrow> string \<Rightarrow> unit io" where
  "User_updatePassword hash userId newPassword =
     (let passwordHash = hash newPassword in
      bindE (query (\<lambda>d. Some ((),
               update_users (\<lambda>u. uid u = userId) (set_password passwordHash) d)))
        (\<lambda>_. returnE ()))"

definition User_generateEmailVerificationToken :: "config \<Rightarrow> string \<Rightarrow> int \<Rightarrow> string io" where
  "User_generateEmailVerificationToken cfg userId now =
     bindE (randomBytes 32) (\<lambda>bytes.
       let token = to_hex bytes;
           expiresAt = now + hours_ms (EMAIL_VERIFICATION_EXPIRY_HOURS cfg)
       in bindE (query (\<lambda>d. Some ((),
                   update_users (\<lambda>u. uid u = userId) (set_verification token expiresAt) d)))
            (\<lambda>_. returnE token))"

datatype verify_result =
    VerifyFailed string
  | Verified string string

definition User_verifyEmail :: "string \<Rightarrow> int \<Rightarrow> verify_result io" where
  "User_verifyEmail token now =
     bindE (query (\<lambda>d. Some (filter (\<lambda>u. email_verification_token u = Some token) (auth_users d), d)))
       (\<lambda>rows.
          case rows of
            [] \<Rightarrow> returnE (VerifyFailed ''Invalid verification token'')
          | user # _ \<Rightarrow>
              if email_verified user then returnE (VerifyFailed ''Email already verified'')
              else if date_of (email_verification_expires user) < now
                then returnE (VerifyFailed ''Verification token has expired'')
              else
                bindE (query (\<lambda>d. Some ((),
                         update_users (\<lambda>u. uid u = uid user) set_verified d)))
                  (\<lambda>_. returnE (Verified (uid user) (email user))))"

text \<open>\<^verbatim>\<open>result.rows[0]?.email_verified ?? false\<close>.\<close>

definition User_isEmailVerified :: "string \<Rightarrow> bool io" where
  "User_isEmailVerified userId =
     bindE (query (\<lambda>d. Some (filter (\<lambda>u. uid u = userId) (auth_users d), d)))
       (\<lambda>rows. returnE (case rows of [] \<Rightarrow> False | u # _ \<Rightarrow> email_verified u))"

datatype lock_status =
    NotLocked
  | Locked int int

definition User_isAccountLocked :: "string \<Rightarrow> int \<Rightarrow> lock_status io" where
  "User_isAccountLocked userId now =
     bindE (query (\<lambda>d. Some (map locked_until (filter (\<lambda>u. uid u = userId) (auth_users d)), d)))
       (\<lambda>rows.
          case rows of
            [] \<Rightarrow> returnE NotLocked
          | None # _ \<Rightarrow> returnE NotLocked
          | Some lockedUntil # _ \<Rightarrow>
              if lockedUntil > now
                then returnE (Locked lockedUntil (ceil_minutes (lockedUntil - now)))
              else returnE NotLocked)"

text \<open>
  The first statement of \<^verbatim>\<open>recordFailedLoginAttempt\<close>,
  \<^verbatim>\<open>UPDATE auth_users SET failed_login_attempts = COALESCE(failed_login_attempts, 0) + 1
  WHERE id = $1 RETURNING failed_login_attempts\<close>. The column is an \<^verbatim>\<open>INTEGER\<close>:
  PostgreSQL rejects the statement when the sum leaves 32 bits.
\<close>

definition increment_attempts :: "string \<Rightarrow> db \<Rightarrow> (int list \<times> db) option" where
  "increment_attempts userId d =
     (let rows = map (\<lambda>u. coalesce0 (failed_login_attempts u) + 1)
                   (filter (\<lambda>u. uid u = userId) (auth_users d))
      in if \<exists>n \<in> set rows. n > 2147483647 then None
         else Some (rows,
                update_users (\<lambda>u. uid u = userId) bump_attempts d))"

datatype attempt_result =
    AttemptLocked int
  | AttemptsRemaining int

definition User_recordFailedLoginAttempt :: "config \<Rightarrow> string \<Rightarrow> int \<Rightarrow> attempt_result io" where
  "User_recordFailedLoginAttempt cfg userId now =
     bindE (query (increment_attempts userId))
       (\<lambda>rows.
          case rows of
            [] \<Rightarrow> throwE TypeError
          | attempts # _ \<Rightarrow>
              if attempts \<ge> MAX_LOGIN_ATTEMPTS cfg then
                (let lockedUntil = now + minutes_ms (LOCKOUT_DURATION_MINUTES cfg) in
                 bindE (query (\<lambda>d. Some ((),
                          update_users (\<lambda>u. uid u = userId) (set_locked lockedUntil) d)))
                   (\<lambda>_. returnE (AttemptLocked lockedUntil)))
              else
                (let attemptsRemaining = MAX_LOGIN_ATTEMPTS cfg - attempts in
                 returnE (AttemptsRemaining attemptsRemaining)))"

definition User_resetFailedLoginAttempts :: "string \<Rightarrow> unit io" where
  "User_resetFailedLoginAttempts userId =
     bindE (query (\<lambda>d. Some ((),
              update_users (\<lambda>u. uid u = userId) clear_lockout d)))
       (\<lambda>_. returnE ())"


section \<open>The model \<^verbatim>\<open>PasswordReset\<close>\<close>

text \<open>
  \<^verbatim>\<open>INSERT INTO auth_password_resets (user_id, token, expires_at)\<close>: \<^verbatim>\<open>used\<close> takes its
  default \<^verbatim>\<open>FALSE\<close>; the statement is rejected when the token is already stored
  (\<^verbatim>\<open>token ... UNIQUE\<close>) or no user has the id (\<^verbatim>\<open>REFERENCES auth_users(id)\<close>).
  The model returns the inserted row whole; the \<^verbatim>\<open>RETURNING\<close> clause of the source
  lists its id, token, expiry and creation time.
\<close>

definition insert_reset :: "reset_row \<Rightarrow> db \<Rightarrow> (reset_row \<times> db) option" where
  "insert_reset r d =
     (if pr_token r \<in> set (map pr_token (auth_password_resets d))
         \<or> pr_user_id r \<notin> set (map uid (auth_users d))
      then None
      else Some (r, d\<lparr>auth_password_resets := auth_password_resets d @ [r]\<rparr>))"

text \<open>
  \<^verbatim>\<open>UPDATE auth_password_resets SET used = TRUE WHERE user_id = $1 AND used = FALSE\<close>,
  returning \<^verbatim>\<open>result.rowCount\<close>.
\<close>

definition PasswordReset_invalidateForUser :: "string \<Rightarrow> nat io" where
  "PasswordReset_invalidateForUser userId =
     bindE (query (\<lambda>d. Some
              (length (filter (\<lambda>r. pr_user_id r = userId \<and> pr_used r = False)
                         (auth_password_resets d)),
               update_resets (\<lambda>r. pr_user_id r = userId \<and> pr_used r = False) mark_used d)))
       (\<lambda>rowCount. returnE rowCount)"

definition PasswordReset_create :: "config \<Rightarrow> string \<Rightarrow> int \<Rightarrow> reset_row io" where
  "PasswordReset_create cfg userId now =
     bindE (PasswordReset_invalidateForUser userId) (\<lambda>_.
     bindE (randomBytes 32) (\<lambda>bytes.
       let token = to_hex bytes;
           expiresAt = now + hours_ms (TOKEN_EXPIRY_HOURS cfg)
       in query (insert_reset
            \<lparr>pr_user_id = userId, pr_token = token, pr_expires_at = expiresAt,
             pr_used = False\<rparr>)))"

text \<open>
  The rows of \<^verbatim>\<open>auth_password_resets pr JOIN auth_users u ON pr.user_id = u.id
  WHERE pr.token = $1\<close>.
\<close>

definition join_resets :: "string \<Rightarrow> db \<Rightarrow> (reset_row \<times> user_row) list" where
  "join_resets token d =
     concat (map (\<lambda>r. map (\<lambda>u. (r, u)) (filter (\<lambda>u. uid u = pr_user_id r) (auth_users d)))
               (filter (\<lambda>r. pr_token r = token) (auth_password_resets d)))"

definition PasswordReset_findByToken :: "string \<Rightarrow> ((reset_row \<times> user_row) option) io" where
  "PasswordReset_findByToken token =
     bindE (query (\<lambda>d. Some (join_resets token d, d)))
       (\<lambda>rows. returnE (first_row rows))"

datatype validation =
    Invalid string
  | Valid string string

definition PasswordReset_validateToken :: "string \<Rightarrow> int \<Rightarrow> validation io" where
  "PasswordReset_validateToken token now =
     bindE (PasswordReset_findByToken token)
       (\<lambda>resetToken.
          case resetToken of
            None \<Rightarrow> returnE (Invalid ''Token not found'')
          | Some (r, u) \<Rightarrow>
              if pr_used r then returnE (Invalid ''Token has already been used'')
              else if pr_expires_at r < now then returnE (Invalid ''Token has expired'')
              else returnE (Valid (pr_user_id r) (email u)))"

definition PasswordReset_markAsUsed :: "string \<Rightarrow> unit io" where
  "PasswordReset_markAsUsed token =
     bindE (query (\<lambda>d. Some ((),
              update_resets (\<lambda>r. pr_token r = token) mark_used d)))
       (\<lambda>_. returnE ())"


section \<open>The model \<^verbatim>\<open>RefreshToken\<close>\<close>

definition insert_refresh :: "refresh_row \<Rightarrow> db \<Rightarrow> (refresh_row \<times> db) option" where
  "insert_refresh r d =
     (if rt_token r \<in> set (map rt_token (auth_refresh_tokens d))
         \<or> rt_user_id r \<notin> set (map uid (auth_users d))
      then None
      else Some (r, d\<lparr>auth_refresh_tokens := auth_refresh_tokens d @ [r]\<rparr>))"

definition RefreshToken_create :: "string \<Rightarrow> int \<Rightarrow> int \<Rightarrow> refresh_row io" where
  "RefreshToken_create userId expiresInDays now =
     bindE uuidv4 (\<lambda>token.
       let expiresAt = now + days_ms expiresInDays
       in query (insert_refresh
            \<lparr>rt_user_id = userId, rt_token = token, rt_expires_at = expiresAt,
             rt_revoked = False\<rparr>))"

definition RefreshToken_revoke :: "string \<Rightarrow> unit io" where
  "RefreshToken_revoke token =
     bindE (query (\<lambda>d. Some ((),
              update_refresh (\<lambda>r. rt_token r = token) mark_revoked d)))
       (\<lambda>_. returnE ())"

definition RefreshToken_revokeAllForUser :: "string \<Rightarrow> unit io" where
  "RefreshToken_revokeAllForUser userId =
     bindE (query (\<lambda>d. Some ((),
              update_refresh (\<lambda>r. rt_user_id r = userId \<and> rt_revoked r = False) mark_revoked d)))
       (\<lambda>_. returnE ())"

section \<open>The routes\<close>

text \<open>
  The handlers of \<^verbatim>\<open>POST /auth/signin\<close> and \<^verbatim>\<open>POST /auth/reset-password\<close>, after
  the validators of the route have accepted the body. A thrown error reaches the client
  through \<^verbatim>\<open>asyncHandler\<close> and \<^verbatim>\<open>errorHandler\<close> as its status and message.
  \<^verbatim>\<open>sendAccountLockedEmail\<close> catches its own failures; the model logs the call.
  The signed access token of the success response comes from the external library
  \<^verbatim>\<open>jsonwebtoken\<close> and is left out of \<open>signin_response\<close>.
\<close>

record signin_response =
  res_message :: string
  res_user_id :: string
  res_user_email :: string
  res_emailVerified :: bool
  res_refreshToken :: string

definition signin ::
  "config \<Rightarrow> (string \<Rightarrow> string \<Rightarrow> bool) \<Rightarrow> string \<Rightarrow> string \<Rightarrow> int \<Rightarrow> int \<Rightarrow> int
     \<Rightarrow> signin_response io" where
  "signin cfg cmp em password now1 now2 now3 =
     bindE (User_findByEmail em) (\<lambda>found.
       case found of
         None \<Rightarrow> throwE (UnauthorizedError ''Invalid email or password'')
       | Some user \<Rightarrow>
     bindE (User_isAccountLocked (uid user) now1) (\<lambda>lockStatus.
       case lockStatus of
         Locked _ remaining \<Rightarrow>
           throwE (TooManyRequestsError
             (''Account is locked. Try again in '' @ show_int remaining @ '' minutes.''))
       | NotLocked \<Rightarrow>
     bindE (User_verifyPassword cmp password (password_hash user)) (\<lambda>isValidPassword.
       if \<not> isValidPassword then
         bindE (User_recordFailedLoginAttempt cfg (uid user) now2) (\<lambda>attemptResult.
           case attemptResult of
             AttemptLocked _ \<Rightarrow>
               bindE (emit (AccountLockedEmail em (LOCKOUT_DURATION_MINUTES cfg))) (\<lambda>_.
                 throwE (TooManyRequestsError
                   (''Account locked due to too many failed attempts. Try again in '' @
                    show_int (LOCKOUT_DURATION_MINUTES cfg) @ '' minutes.'')))
           | AttemptsRemaining attemptsRemaining \<Rightarrow>
               throwE (UnauthorizedError
                 (''Invalid email or password. '' @ show_int attemptsRemaining @
                  '' attempts remaining.'')))
       else
     bindE (User_resetFailedLoginAttempts (uid user)) (\<lambda>_.
     bindE (RefreshToken_create (uid user) 30 now3) (\<lambda>refreshToken.
     bindE (User_isEmailVerified (uid user)) (\<lambda>emailVerified.
       returnE
         \<lparr>res_message = ''Login successful'', res_user_id = uid user,
          res_user_email = email user, res_emailVerified = emailVerified,
          res_refreshToken = rt_token refreshToken\<rparr>))))))"

definition reset_password :: "(string \<Rightarrow> string) \<Rightarrow> string \<Rightarrow> string \<Rightarrow> int \<Rightarrow> string io" where
  "reset_password hash token password now =
     bindE (PasswordReset_validateToken token now) (\<lambda>validation.
       case validation of
         Invalid reason \<Rightarrow> throwE (BadRequestError reason)
       | Valid userId _ \<Rightarrow>
     bindE (User_updatePassword hash userId password) (\<lambda>_.
     bindE (PasswordReset_markAsUsed token) (\<lambda>_.
     bindE (RefreshToken_revokeAllForUser userId) (\<lambda>_.
     bindE (User_resetFailedLoginAttempts userId) (\<lambda>_.
       returnE
         ''Password has been reset successfully. Please sign in with your new password.'')))))"

section \<open>Requests that overlap\<close>





section \<open>The constraints of the schema and the vocabulary of the properties\<close>

text \<open>
  What \<^verbatim>\<open>initializeSchema\<close> declares: \<^verbatim>\<open>id UUID PRIMARY KEY\<close> and
  \<^verbatim>\<open>email ... UNIQUE\<close> on \<^verbatim>\<open>auth_users\<close>, \<^verbatim>\<open>token ... UNIQUE\<close> and
  \<^verbatim>\<open>user_id ... REFERENCES auth_users(id)\<close> on both token tables.
\<close>

definition integrity :: "db \<Rightarrow> bool" where
  "integrity d \<longleftrightarrow>
     distinct (map uid (auth_users d)) \<and>
     distinct (map email (auth_users d)) \<and>
     distinct (map rt_token (auth_refresh_tokens d)) \<and>
     distinct (map pr_token (auth_password_resets d)) \<and>
     set (map rt_user_id (auth_refresh_tokens d)) \<subseteq> set (map uid (auth_users d)) \<and>
     set (map pr_user_id (auth_password_resets d)) \<subseteq> set (map uid (auth_users d))"

text \<open>
  A reset token is usable at a time when \<^verbatim>\<open>validateToken\<close> would accept its row:
  not used and not expired.
\<close>

definition usable :: "int \<Rightarrow> reset_row \<Rightarrow> bool" where
  "usable now r \<longleftrightarrow> \<not> pr_used r \<and> \<not> pr_expires_at r < now"


definition token_used :: "string \<Rightarrow> db \<Rightarrow> bool" where
  "token_used token d \<longleftrightarrow> (\<exists>r \<in> set (auth_password_resets d). pr_token r = token \<and> pr_used r)"

definition stored_hashes :: "string \<Rightarrow> db \<Rightarrow> string list" where
  "stored_hashes userId d = map password_hash (filter (\<lambda>u. uid u = userId) (auth_users d))"

definition password_is :: "string \<Rightarrow> string \<Rightarrow> db \<Rightarrow> bool" where
  "password_is userId h d \<longleftrightarrow>
     stored_hashes userId d \<noteq> [] \<and> set (stored_hashes userId d) \<subseteq> {h}"

definition reset_message :: string where
  "reset_message =
     ''Password has been reset successfully. Please sign in with your new password.''"

text \<open>The store after the statement of \<^verbatim>\<open>invalidateForUser\<close>.\<close>

definition invalidated :: "string \<Rightarrow> db \<Rightarrow> db" where
  "invalidated userId d =
     update_resets (\<lambda>r. pr_user_id r = userId \<and> pr_used r = False) mark_used d"

text \<open>The four statements of \<^verbatim>\<open>POST /auth/reset-password\<close> after the validation, one by one.\<close>

definition reset_step1 :: "(string \<Rightarrow> string) \<Rightarrow> string \<Rightarrow> string \<Rightarrow> db \<Rightarrow> db" where
  "reset_step1 hash userId password d =
     update_users (\<lambda>u. uid u = userId) (set_password (hash password)) d"

definition reset_step2 :: "string \<Rightarrow> db \<Rightarrow> db" where
  "reset_step2 token d = update_resets (\<lambda>r. pr_token r = token) mark_used d"

definition reset_step3 :: "string \<Rightarrow> db \<Rightarrow> db" where
  "reset_step3 userId d =
     update_refresh (\<lambda>r. rt_user_id r = userId \<and> rt_revoked r = False) mark_revoked d"

definition reset_step4 :: "string \<Rightarrow> db \<Rightarrow> db" where
  "reset_step4 userId d =
     update_users (\<lambda>u. uid u = userId) clear_lockout d"

text \<open>A string of 64 hexadecimal digits: the hexadecimal form of 256 bits.\<close>

definition hex256 :: "string \<Rightarrow> bool" where
  "hex256 s \<longleftrightarrow> length s = 64 \<and> set s \<subseteq> set hex_chars"

text \<open>The next \<open>n\<close> bytes that \<^verbatim>\<open>crypto.randomBytes\<close> will return in a world.\<close>

definition next_bytes :: "nat \<Rightarrow> world \<Rightarrow> 8 word list" where
  "next_bytes n w = map (entropy w) [drawn w ..< drawn w + n]"

text \<open>The row that \<^verbatim>\<open>PasswordReset.create\<close> inserts in a world.\<close>

definition new_reset :: "config \<Rightarrow> string \<Rightarrow> int \<Rightarrow> world \<Rightarrow> reset_row" where
  "new_reset cfg userId now w =
     \<lparr>pr_user_id = userId, pr_token = to_hex (next_bytes 32 w),
      pr_expires_at = now + hours_ms (TOKEN_EXPIRY_HOURS cfg), pr_used = False\<rparr>"


text \<open>
  The pre-check \<^verbatim>\<open>isAccountLocked\<close> lets a row through at a time: no lock is stored,
  or the stored lock is not after that time.
\<close>

definition not_locked_at :: "int \<Rightarrow> user_row \<Rightarrow> bool" where
  "not_locked_at now u \<longleftrightarrow> (case locked_until u of None \<Rightarrow> True | Some t \<Rightarrow> t \<le> now)"

section \<open>An example store\<close>

definition alice :: user_row where
  "alice =
     \<lparr>uid = ''u1'', email = ''alice@example.com'', password_hash = ''h1'',
      email_verified = False, email_verification_token = Some ''v1'',
      email_verification_expires = Some 5000, failed_login_attempts = Some 4,
      locked_until = None\<rparr>"

definition bob :: user_row where
  "bob =
     \<lparr>uid = ''u2'', email = ''bob@example.com'', password_hash = ''h2'',
      email_verified = True, email_verification_token = Some ''v2'',
      email_verification_expires = Some 100, failed_login_attempts = Some 5,
      locked_until = Some 2000\<rparr>"

definition carol :: user_row where
  "carol =
     \<lparr>uid = ''u3'', email = ''carol@example.com'', password_hash = ''bcrypt:secret'',
      email_verified = False, email_verification_token = None,
      email_verification_expires = None, failed_login_attempts = None,
      locked_until = None\<rparr>"

definition tokA_row :: reset_row where
  "tokA_row = \<lparr>pr_user_id = ''u1'', pr_token = ''tokA'', pr_expires_at = 9000, pr_used = False\<rparr>"

definition demo_db :: db where
  "demo_db =
     \<lparr>auth_users = [alice, bob, carol],
      auth_refresh_tokens =
        [\<lparr>rt_user_id = ''u1'', rt_token = ''r1'', rt_expires_at = 9000, rt_revoked = False\<rparr>,
         \<lparr>rt_user_id = ''u2'', rt_token = ''r2'', rt_expires_at = 9000, rt_revoked = True\<rparr>],
      auth_password_resets =
        [\<lparr>pr_user_id = ''u1'', pr_token = ''tokOld'', pr_expires_at = 500, pr_used = True\<rparr>,
         tokA_row]\<rparr>"

definition demo_world :: "nat option \<Rightarrow> world" where
  "demo_world b =
     \<lparr>db = demo_db, budget = b, entropy = (\<lambda>i. of_nat i), drawn = 0, events = []\<rparr>"

definition demo_hash :: "string \<Rightarrow> string" where
  "demo_hash p = ''bcrypt:'' @ p"

definition demo_cmp :: "string \<Rightarrow> string \<Rightarrow> bool" where
  "demo_cmp p h \<longleftrightarrow> h = ''bcrypt:'' @ p"

section \<open>Running a statement\<close>

lemma accepts_Suc_budget: "accepts (Suc n) w \<Longrightarrow> budget w \<noteq> Some 0"
  by (auto simp: accepts_def split: option.splits)

lemma accepts_spend: "accepts (Suc n) w \<Longrightarrow> accepts n (spend w)"
  by (auto simp: accepts_def spend_def split: option.splits)

lemma accepts_mono: "accepts (Suc n) w \<Longrightarrow> accepts n w"
  by (auto simp: accepts_def split: option.splits)

lemma accepts_db_update [simp]: "accepts n (w\<lparr>db := d\<rparr>) = accepts n w"
  by (simp add: accepts_def)

lemma accepts_events_update [simp]: "accepts n (w\<lparr>events := e\<rparr>) = accepts n w"
  by (simp add: accepts_def)

lemma accepts_drawn_update [simp]: "accepts n (w\<lparr>drawn := k\<rparr>) = accepts n w"
  by (simp add: accepts_def)

lemma spend_fields [simp]:
  "db (spend w) = db w" "events (spend w) = events w"
  "entropy (spend w) = entropy w" "drawn (spend w) = drawn w"
  by (simp_all add: spend_def)

lemma query_run:
  "accepts (Suc n) w \<Longrightarrow>
   query stmt w =
     (case stmt (db w) of
        None \<Rightarrow> (Inl StoreError, spend w)
      | Some (rows, d) \<Rightarrow> (Inr rows, (spend w)\<lparr>db := d\<rparr>))"
  by (simp add: query_def accepts_Suc_budget)

lemma query_up:
  "budget w \<noteq> Some 0 \<Longrightarrow>
   query stmt w =
     (case stmt (db w) of
        None \<Rightarrow> (Inl StoreError, spend w)
      | Some (rows, d) \<Rightarrow> (Inr rows, (spend w)\<lparr>db := d\<rparr>))"
  by (simp add: query_def)

lemma spend_db_update [simp]: "spend (w\<lparr>db := d\<rparr>) = (spend w)\<lparr>db := d\<rparr>"
  by (simp add: spend_def)

lemma spend_events_update [simp]: "spend (w\<lparr>events := e\<rparr>) = (spend w)\<lparr>events := e\<rparr>"
  by (simp add: spend_def)

lemma spend_drawn_update [simp]: "spend (w\<lparr>drawn := k\<rparr>) = (spend w)\<lparr>drawn := k\<rparr>"
  by (simp add: spend_def)

lemma accepts_budgets:
  "accepts (Suc n) w \<Longrightarrow> budget w \<noteq> Some 0 \<and> accepts n (spend w)"
  by (auto simp: accepts_def spend_def split: option.splits)

lemma query_down: "budget w = Some 0 \<Longrightarrow> query stmt w = (Inl StoreError, w)"
  by (simp add: query_def)

section \<open>Revoking a refresh token\<close>

lemma update_refresh_twice:
  "update_refresh P mark_revoked (update_refresh P mark_revoked d) = update_refresh P mark_revoked d"
  by (simp add: update_refresh_def mark_revoked_def)

lemma update_refresh_id:
  "\<forall>r \<in> set (auth_refresh_tokens d). P r \<longrightarrow> f r = r \<Longrightarrow> update_refresh P f d = d"
  by (simp add: update_refresh_def map_idI)

lemma revoke_run:
  "RefreshToken_revoke token w =
    (if budget w = Some 0 then (Inl StoreError, w)
     else (Inr (),
           (spend w)\<lparr>db := update_refresh (\<lambda>r. rt_token r = token) mark_revoked (db w)\<rparr>))"
  by (simp add: RefreshToken_revoke_def bindE_def query_def returnE_def)

text \<open>
  C9. While the store answers, \<^verbatim>\<open>RefreshToken.revoke\<close> returns without an error,
  whatever the token; revoking a second time returns without an error too and leaves the
  store as the first call left it, with no outside effect; and revoking a token that is not
  stored, or is stored as revoked, leaves the store as it was.
\<close>

theorem revoke_idempotent:
  assumes "accepts 2 w"
  shows "fst (RefreshToken_revoke token w) = Inr ()
   \<and> fst (RefreshToken_revoke token (snd (RefreshToken_revoke token w))) = Inr ()
   \<and> db (snd (RefreshToken_revoke token (snd (RefreshToken_revoke token w))))
       = db (snd (RefreshToken_revoke token w))
   \<and> events (snd (RefreshToken_revoke token (snd (RefreshToken_revoke token w)))) = events w
   \<and> ((\<forall>r \<in> set (auth_refresh_tokens (db w)). rt_token r = token \<longrightarrow> rt_revoked r)
        \<longrightarrow> db (snd (RefreshToken_revoke token w)) = db w)"
proof -
  from assms have b: "budget w \<noteq> Some 0" "budget (spend w) \<noteq> Some 0"
    by (auto simp: accepts_def spend_def split: option.splits)
  show ?thesis
    using b by (simp add: revoke_run update_refresh_twice update_refresh_id mark_revoked_def)
qed

theorem revoke_idempotent_witness:
  "accepts 2 (demo_world (Some 2))
   \<and> fst (RefreshToken_revoke ''r1'' (demo_world (Some 2))) = Inr ()
   \<and> db (snd (RefreshToken_revoke ''r1'' (snd (RefreshToken_revoke ''r1'' (demo_world (Some 2))))))
       = db (snd (RefreshToken_revoke ''r1'' (demo_world (Some 2))))
   \<and> db (snd (RefreshToken_revoke ''r2'' (demo_world (Some 2)))) = demo_db
   \<and> db (snd (RefreshToken_revoke ''nope'' (demo_world (Some 2)))) = demo_db
   \<and> db (snd (RefreshToken_revoke ''r1'' (demo_world (Some 2)))) \<noteq> demo_db"
proof -
  have a: "accepts 2 (demo_world (Some 2))"
    by (simp add: accepts_def demo_world_def)
  have r2: "\<forall>r \<in> set (auth_refresh_tokens (db (demo_world (Some 2)))).
              rt_token r = ''r2'' \<longrightarrow> rt_revoked r"
    by (simp add: demo_world_def demo_db_def)
  have r3: "\<forall>r \<in> set (auth_refresh_tokens (db (demo_world (Some 2)))).
              rt_token r = ''nope'' \<longrightarrow> rt_revoked r"
    by (simp add: demo_world_def demo_db_def)
  have d: "db (demo_world (Some 2)) = demo_db"
    by (simp add: demo_world_def)
  have ne: "db (snd (RefreshToken_revoke ''r1'' (demo_world (Some 2)))) \<noteq> demo_db"
    by (simp add: revoke_run demo_world_def demo_db_def update_refresh_def spend_def
        mark_revoked_def)
  from revoke_idempotent[OF a, of "''r1''"] revoke_idempotent[OF a, of "''r2''"]
    revoke_idempotent[OF a, of "''nope''"] r2 r3 d ne a
  show ?thesis by simp
qed

section \<open>Validating a reset token\<close>

lemma filter_absent: "k \<notin> f ` set xs \<Longrightarrow> filter (\<lambda>y. f y = k) xs = []"
  by (induction xs) auto

lemma filter_unique:
  "distinct (map f xs) \<Longrightarrow> x \<in> set xs \<Longrightarrow> filter (\<lambda>y. f y = f x) xs = [x]"
proof (induction xs)
  case Nil
  then show ?case by simp
next
  case (Cons a xs)
  show ?case
  proof (cases "a = x")
    case True
    with Cons.prems have "f x \<notin> f ` set xs" by simp
    then have "filter (\<lambda>y. f y = f x) xs = []" by (rule filter_absent)
    with True show ?thesis by simp
  next
    case False
    with Cons.prems have x: "x \<in> set xs" and d: "distinct (map f xs)" and "f a \<notin> f ` set xs"
      by auto
    then have "f a \<noteq> f x" by auto
    with Cons.IH[OF d x] show ?thesis by simp
  qed
qed

lemma join_resets_none:
  "\<forall>r \<in> set (auth_password_resets d). pr_token r \<noteq> token \<Longrightarrow> join_resets token d = []"
  by (simp add: join_resets_def filter_absent image_iff)

lemma join_resets_unique:
  assumes "integrity d" and "r \<in> set (auth_password_resets d)"
  shows "\<exists>u \<in> set (auth_users d). uid u = pr_user_id r \<and> join_resets (pr_token r) d = [(r, u)]"
proof -
  from assms have "pr_user_id r \<in> set (map uid (auth_users d))"
    by (auto simp: integrity_def)
  then obtain u where u: "u \<in> set (auth_users d)" "uid u = pr_user_id r" by auto
  from assms have "filter (\<lambda>y. pr_token y = pr_token r) (auth_password_resets d) = [r]"
    by (simp add: integrity_def filter_unique)
  moreover from assms have "distinct (map uid (auth_users d))"
    by (simp add: integrity_def)
  from filter_unique[OF this u(1)] u(2)
  have "filter (\<lambda>y. uid y = pr_user_id r) (auth_users d) = [u]" by simp
  ultimately have "join_resets (pr_token r) d = [(r, u)]"
    by (simp add: join_resets_def)
  with u show ?thesis by blast
qed

lemma world_db_same [simp]: "w\<lparr>db := db w\<rparr> = w"
  by simp

lemma validateToken_run:
  "accepts (Suc n) w \<Longrightarrow>
   PasswordReset_validateToken token now w =
     (Inr (case join_resets token (db w) of
             [] \<Rightarrow> Invalid ''Token not found''
           | (r, u) # _ \<Rightarrow>
               if pr_used r then Invalid ''Token has already been used''
               else if pr_expires_at r < now then Invalid ''Token has expired''
               else Valid (pr_user_id r) (email u)), spend w)"
  by (simp add: PasswordReset_validateToken_def PasswordReset_findByToken_def bindE_def
      query_run returnE_def first_row_def split: list.splits)

text \<open>
  C7. While the store answers and the schema's constraints hold, \<^verbatim>\<open>validateToken\<close>
  answers in a fixed order: ``Token not found'' when no stored row has the token; otherwise,
  for the row that has it, ``Token has already been used'' when its \<^verbatim>\<open>used\<close> flag is
  set, whatever its expiry; otherwise ``Token has expired'' when \<^verbatim>\<open>expires_at\<close> is
  before now; otherwise valid, with the row's \<^verbatim>\<open>user_id\<close> and the owner's email. The
  store is not changed.
\<close>

theorem validateToken_priority:
  assumes "accepts 1 w" and "integrity (db w)"
  shows "((\<forall>r \<in> set (auth_password_resets (db w)). pr_token r \<noteq> token) \<longrightarrow>
            fst (PasswordReset_validateToken token now w) = Inr (Invalid ''Token not found''))
       \<and> (\<forall>r \<in> set (auth_password_resets (db w)). pr_token r = token \<longrightarrow>
            (\<exists>u \<in> set (auth_users (db w)). uid u = pr_user_id r \<and>
               fst (PasswordReset_validateToken token now w) =
                 Inr (if pr_used r then Invalid ''Token has already been used''
                      else if pr_expires_at r < now then Invalid ''Token has expired''
                      else Valid (pr_user_id r) (email u))))
       \<and> db (snd (PasswordReset_validateToken token now w)) = db w"
proof -
  from assms(1) have a: "accepts (Suc 0) w" by simp
  note run = validateToken_run[OF a]
  have 1: "(\<forall>r \<in> set (auth_password_resets (db w)). pr_token r \<noteq> token) \<longrightarrow>
            fst (PasswordReset_validateToken token now w) = Inr (Invalid ''Token not found'')"
    by (simp add: run join_resets_none)
  have 2: "\<forall>r \<in> set (auth_password_resets (db w)). pr_token r = token \<longrightarrow>
            (\<exists>u \<in> set (auth_users (db w)). uid u = pr_user_id r \<and>
               fst (PasswordReset_validateToken token now w) =
                 Inr (if pr_used r then Invalid ''Token has already been used''
                      else if pr_expires_at r < now then Invalid ''Token has expired''
                      else Valid (pr_user_id r) (email u)))"
  proof (intro ballI impI)
    fix r assume r: "r \<in> set (auth_password_resets (db w))" "pr_token r = token"
    from join_resets_unique[OF assms(2) r(1)] r(2)
    obtain u where u: "u \<in> set (auth_users (db w))" "uid u = pr_user_id r"
      "join_resets token (db w) = [(r, u)]" by auto
    then show "\<exists>u \<in> set (auth_users (db w)). uid u = pr_user_id r \<and>
               fst (PasswordReset_validateToken token now w) =
                 Inr (if pr_used r then Invalid ''Token has already been used''
                      else if pr_expires_at r < now then Invalid ''Token has expired''
                      else Valid (pr_user_id r) (email u))"
      by (intro bexI[of _ u]) (simp_all add: run)
  qed
  have 3: "db (snd (PasswordReset_validateToken token now w)) = db w"
    by (simp add: run)
  from 1 2 3 show ?thesis by blast
qed

lemma demo_integrity: "integrity demo_db"
  by (simp add: integrity_def demo_db_def alice_def bob_def carol_def tokA_row_def)

theorem validateToken_priority_witness:
  "accepts 1 (demo_world None) \<and> integrity (db (demo_world None))
   \<and> fst (PasswordReset_validateToken ''missing'' 1000 (demo_world None)) = Inr (Invalid ''Token not found'')
   \<and> fst (PasswordReset_validateToken ''tokOld'' 1000 (demo_world None)) = Inr (Invalid ''Token has already been used'')
   \<and> fst (PasswordReset_validateToken ''tokA'' 9001 (demo_world None)) = Inr (Invalid ''Token has expired'')
   \<and> fst (PasswordReset_validateToken ''tokA'' 1000 (demo_world None)) = Inr (Valid ''u1'' ''alice@example.com'')"
proof -
  have a: "accepts 1 (demo_world None)" by (simp add: accepts_def demo_world_def)
  have i: "integrity (db (demo_world None))" by (simp add: demo_world_def demo_integrity)
  have d: "db (demo_world None) = demo_db" by (simp add: demo_world_def)
  from validateToken_priority[OF a i, of "''missing''" 1000]
       validateToken_priority[OF a i, of "''tokOld''" 1000]
       validateToken_priority[OF a i, of "''tokA''" 9001]
       validateToken_priority[OF a i, of "''tokA''" 1000]
  show ?thesis using a i
    by (simp add: d demo_db_def alice_def bob_def carol_def tokA_row_def)
qed

section \<open>Verifying an email address\<close>

lemma spend_db_same [simp]: "(spend w)\<lparr>db := db w\<rparr> = spend w"
  by (simp add: spend_def)

lemma verifyEmail_run:
  "budget w \<noteq> Some 0 \<Longrightarrow>
   User_verifyEmail token now w =
     (case filter (\<lambda>u. email_verification_token u = Some token) (auth_users (db w)) of
        [] \<Rightarrow> (Inr (VerifyFailed ''Invalid verification token''), spend w)
      | user # _ \<Rightarrow>
          if email_verified user then (Inr (VerifyFailed ''Email already verified''), spend w)
          else if date_of (email_verification_expires user) < now
            then (Inr (VerifyFailed ''Verification token has expired''), spend w)
          else if budget (spend w) = Some 0 then (Inl StoreError, spend w)
          else (Inr (Verified (uid user) (email user)),
                (spend (spend w))\<lparr>db := update_users (\<lambda>u. uid u = uid user) set_verified (db w)\<rparr>))"
  by (simp add: User_verifyEmail_def bindE_def query_up query_down returnE_def split: list.splits)

text \<open>
  C8. \<^verbatim>\<open>User.verifyEmail\<close> answers in a fixed order. When no row has the token:
  ``Invalid verification token''. Otherwise, for the first row the store returns for the
  token: ``Email already verified'' when its flag is set, whatever its expiry; otherwise
  ``Verification token has expired'' when the expiry is before now; otherwise success with
  the row's id and email, and the store differs from the old one by one statement that sets
  the flag and clears token and expiry together. Whatever the store does, it ends either
  unchanged or with all three columns written: no state has only some of them.
\<close>

theorem verifyEmail_order:
  "(accepts 1 w \<and> (\<forall>u \<in> set (auth_users (db w)). email_verification_token u \<noteq> Some token) \<longrightarrow>
      fst (User_verifyEmail token now w) = Inr (VerifyFailed ''Invalid verification token'')
      \<and> db (snd (User_verifyEmail token now w)) = db w)
   \<and> (accepts 2 w \<and>
       filter (\<lambda>u. email_verification_token u = Some token) (auth_users (db w)) = user # others \<longrightarrow>
      fst (User_verifyEmail token now w) =
        Inr (if email_verified user then VerifyFailed ''Email already verified''
             else if date_of (email_verification_expires user) < now
               then VerifyFailed ''Verification token has expired''
             else Verified (uid user) (email user))
      \<and> db (snd (User_verifyEmail token now w)) =
          (if email_verified user \<or> date_of (email_verification_expires user) < now then db w
           else update_users (\<lambda>u. uid u = uid user) set_verified (db w)))
   \<and> (db (snd (User_verifyEmail token now w)) = db w
       \<or> (\<exists>user \<in> set (auth_users (db w)).
            db (snd (User_verifyEmail token now w)) =
              update_users (\<lambda>u. uid u = uid user) set_verified (db w)))"
proof -
  have 1: "accepts 1 w \<and> (\<forall>u \<in> set (auth_users (db w)). email_verification_token u \<noteq> Some token) \<longrightarrow>
      fst (User_verifyEmail token now w) = Inr (VerifyFailed ''Invalid verification token'')
      \<and> db (snd (User_verifyEmail token now w)) = db w"
  proof
    assume h: "accepts 1 w \<and> (\<forall>u \<in> set (auth_users (db w)). email_verification_token u \<noteq> Some token)"
    then have b: "budget w \<noteq> Some 0" by (auto simp: accepts_def split: option.splits)
    from h have f: "filter (\<lambda>u. email_verification_token u = Some token) (auth_users (db w)) = []"
      by (simp add: filter_empty_conv)
    show "fst (User_verifyEmail token now w) = Inr (VerifyFailed ''Invalid verification token'')
        \<and> db (snd (User_verifyEmail token now w)) = db w"
      by (simp add: verifyEmail_run[OF b] f)
  qed
  have 2: "accepts 2 w \<and>
       filter (\<lambda>u. email_verification_token u = Some token) (auth_users (db w)) = user # others \<longrightarrow>
      fst (User_verifyEmail token now w) =
        Inr (if email_verified user then VerifyFailed ''Email already verified''
             else if date_of (email_verification_expires user) < now
               then VerifyFailed ''Verification token has expired''
             else Verified (uid user) (email user))
      \<and> db (snd (User_verifyEmail token now w)) =
          (if email_verified user \<or> date_of (email_verification_expires user) < now then db w
           else update_users (\<lambda>u. uid u = uid user) set_verified (db w))"
  proof
    assume h: "accepts 2 w \<and>
       filter (\<lambda>u. email_verification_token u = Some token) (auth_users (db w)) = user # others"
    then have b: "budget w \<noteq> Some 0" "budget (spend w) \<noteq> Some 0"
      by (auto simp: accepts_def spend_def split: option.splits)
    from h b(2) show "fst (User_verifyEmail token now w) =
        Inr (if email_verified user then VerifyFailed ''Email already verified''
             else if date_of (email_verification_expires user) < now
               then VerifyFailed ''Verification token has expired''
             else Verified (uid user) (email user))
      \<and> db (snd (User_verifyEmail token now w)) =
          (if email_verified user \<or> date_of (email_verification_expires user) < now then db w
           else update_users (\<lambda>u. uid u = uid user) set_verified (db w))"
      by (simp add: verifyEmail_run[OF b(1)])
  qed
  have 3: "db (snd (User_verifyEmail token now w)) = db w
       \<or> (\<exists>user \<in> set (auth_users (db w)).
            db (snd (User_verifyEmail token now w)) =
              update_users (\<lambda>u. uid u = uid user) set_verified (db w))"
  proof (cases "budget w = Some 0")
    case True
    then show ?thesis by (simp add: User_verifyEmail_def bindE_def query_down)
  next
    case False
    show ?thesis
    proof (cases "filter (\<lambda>u. email_verification_token u = Some token) (auth_users (db w))")
      case Nil
      then show ?thesis by (simp add: verifyEmail_run[OF False])
    next
      case (Cons user rest)
      then have "user \<in> set (filter (\<lambda>u. email_verification_token u = Some token) (auth_users (db w)))"
        by simp
      then have "user \<in> set (auth_users (db w))" by simp
      with Cons show ?thesis
        by (auto simp add: verifyEmail_run[OF False])
    qed
  qed
  from 1 2 3 show ?thesis by blast
qed

theorem verifyEmail_order_witness:
  "accepts 2 (demo_world (Some 2))
   \<and> fst (User_verifyEmail ''zz'' 1000 (demo_world (Some 2))) = Inr (VerifyFailed ''Invalid verification token'')
   \<and> fst (User_verifyEmail ''v2'' 1000 (demo_world (Some 2))) = Inr (VerifyFailed ''Email already verified'')
   \<and> fst (User_verifyEmail ''v1'' 6000 (demo_world (Some 2))) = Inr (VerifyFailed ''Verification token has expired'')
   \<and> fst (User_verifyEmail ''v1'' 1000 (demo_world (Some 2))) = Inr (Verified ''u1'' ''alice@example.com'')
   \<and> auth_users (db (snd (User_verifyEmail ''v1'' 1000 (demo_world (Some 2))))) =
        [alice\<lparr>email_verified := True, email_verification_token := None, email_verification_expires := None\<rparr>, bob, carol]"
proof -
  have a: "accepts 2 (demo_world (Some 2))" "accepts 1 (demo_world (Some 2))"
    by (simp_all add: accepts_def demo_world_def)
  have d: "db (demo_world (Some 2)) = demo_db" by (simp add: demo_world_def)
  have f0: "\<forall>u \<in> set (auth_users (db (demo_world (Some 2)))). email_verification_token u \<noteq> Some ''zz''"
    by (simp add: d demo_db_def alice_def bob_def carol_def tokA_row_def)
  have f1: "filter (\<lambda>u. email_verification_token u = Some ''v1'') (auth_users (db (demo_world (Some 2)))) = alice # []"
    by (simp add: d demo_db_def alice_def bob_def carol_def tokA_row_def)
  have f2: "filter (\<lambda>u. email_verification_token u = Some ''v2'') (auth_users (db (demo_world (Some 2)))) = bob # []"
    by (simp add: d demo_db_def alice_def bob_def carol_def tokA_row_def)
  from verifyEmail_order[of "demo_world (Some 2)" "''zz''" 1000 bob "[]"] a f0
  have 1: "fst (User_verifyEmail ''zz'' 1000 (demo_world (Some 2))) = Inr (VerifyFailed ''Invalid verification token'')"
    by blast
  from verifyEmail_order[of "demo_world (Some 2)" "''v2''" 1000 bob "[]"] a f2
  have 2: "fst (User_verifyEmail ''v2'' 1000 (demo_world (Some 2))) = Inr (VerifyFailed ''Email already verified'')"
    by (simp add: bob_def)
  from verifyEmail_order[of "demo_world (Some 2)" "''v1''" 6000 alice "[]"] a f1
  have 3: "fst (User_verifyEmail ''v1'' 6000 (demo_world (Some 2))) = Inr (VerifyFailed ''Verification token has expired'')"
    by (simp add: alice_def date_of_def)
  from verifyEmail_order[of "demo_world (Some 2)" "''v1''" 1000 alice "[]"] a f1
  have 4: "fst (User_verifyEmail ''v1'' 1000 (demo_world (Some 2))) = Inr (Verified ''u1'' ''alice@example.com'')
     \<and> auth_users (db (snd (User_verifyEmail ''v1'' 1000 (demo_world (Some 2))))) =
        [alice\<lparr>email_verified := True, email_verification_token := None, email_verification_expires := None\<rparr>, bob, carol]"
    by (simp add: d alice_def bob_def carol_def date_of_def update_users_def demo_db_def set_verified_def)
  from a 1 2 3 4 show ?thesis by simp
qed

section \<open>Recording a failed login\<close>

lemma users_filter_uid:
  assumes "integrity d" and "u \<in> set (auth_users d)"
  shows "filter (\<lambda>x. uid x = uid u) (auth_users d) = [u]"
proof -
  from assms(1) have "distinct (map uid (auth_users d))" by (simp add: integrity_def)
  from filter_unique[OF this assms(2)] show ?thesis .
qed

lemma increment_attempts_one:
  assumes "filter (\<lambda>x. uid x = userId) (auth_users d) = [u]"
    and "coalesce0 (failed_login_attempts u) < 2147483647"
  shows "increment_attempts userId d =
           Some ([coalesce0 (failed_login_attempts u) + 1],
                 update_users (\<lambda>x. uid x = userId) bump_attempts d)"
  using assms by (simp add: increment_attempts_def)

lemma recordFailedLoginAttempt_run:
  assumes "budget w \<noteq> Some 0"
    and "filter (\<lambda>x. uid x = userId) (auth_users (db w)) = [u]"
    and "coalesce0 (failed_login_attempts u) < 2147483647"
  shows "User_recordFailedLoginAttempt cfg userId now w =
     (if MAX_LOGIN_ATTEMPTS cfg \<le> coalesce0 (failed_login_attempts u) + 1 then
        if budget (spend w) = Some 0 then
          (Inl StoreError, (spend w)\<lparr>db := update_users (\<lambda>x. uid x = userId) bump_attempts (db w)\<rparr>)
        else
          (Inr (AttemptLocked (now + minutes_ms (LOCKOUT_DURATION_MINUTES cfg))),
           (spend (spend w))\<lparr>db :=
              update_users (\<lambda>x. uid x = userId)
                (set_locked (now + minutes_ms (LOCKOUT_DURATION_MINUTES cfg)))
                (update_users (\<lambda>x. uid x = userId) bump_attempts (db w))\<rparr>)
      else
        (Inr (AttemptsRemaining (MAX_LOGIN_ATTEMPTS cfg - (coalesce0 (failed_login_attempts u) + 1))),
         (spend w)\<lparr>db := update_users (\<lambda>x. uid x = userId) bump_attempts (db w)\<rparr>))"
  using assms(1)
  by (simp add: User_recordFailedLoginAttempt_def bindE_def query_up query_down returnE_def
      Let_def increment_attempts_one[OF assms(2,3)])

text \<open>
  C2, as the code has it. For a stored credential whose counter is below the 32-bit limit,
  \<^verbatim>\<open>recordFailedLoginAttempt\<close> increments the counter in one statement. When the new
  count is below the threshold it returns the attempts remaining, threshold minus count. When
  the new count reaches or exceeds the threshold it issues a second statement, which sets
  \<^verbatim>\<open>locked_until\<close> to now plus the lockout duration, and returns locked with that time.
  The lock is not part of the increment: when the store fails between the two statements the
  call throws, the counter stays incremented and no lock is stored.
\<close>

theorem recordFailedLoginAttempt_two_updates:
  assumes "integrity (db w)" and "u \<in> set (auth_users (db w))"
    and "coalesce0 (failed_login_attempts u) < 2147483647"
  shows
   "(accepts 1 w \<and> coalesce0 (failed_login_attempts u) + 1 < MAX_LOGIN_ATTEMPTS cfg \<longrightarrow>
       fst (User_recordFailedLoginAttempt cfg (uid u) now w) =
         Inr (AttemptsRemaining (MAX_LOGIN_ATTEMPTS cfg - (coalesce0 (failed_login_attempts u) + 1)))
       \<and> db (snd (User_recordFailedLoginAttempt cfg (uid u) now w)) =
           update_users (\<lambda>x. uid x = uid u) bump_attempts (db w))
  \<and> (accepts 2 w \<and> MAX_LOGIN_ATTEMPTS cfg \<le> coalesce0 (failed_login_attempts u) + 1 \<longrightarrow>
       fst (User_recordFailedLoginAttempt cfg (uid u) now w) =
         Inr (AttemptLocked (now + minutes_ms (LOCKOUT_DURATION_MINUTES cfg)))
       \<and> db (snd (User_recordFailedLoginAttempt cfg (uid u) now w)) =
           update_users (\<lambda>x. uid x = uid u)
             (set_locked (now + minutes_ms (LOCKOUT_DURATION_MINUTES cfg)))
             (update_users (\<lambda>x. uid x = uid u) bump_attempts (db w)))
  \<and> (budget w = Some 1 \<and> MAX_LOGIN_ATTEMPTS cfg \<le> coalesce0 (failed_login_attempts u) + 1 \<longrightarrow>
       fst (User_recordFailedLoginAttempt cfg (uid u) now w) = Inl StoreError
       \<and> db (snd (User_recordFailedLoginAttempt cfg (uid u) now w)) =
           update_users (\<lambda>x. uid x = uid u) bump_attempts (db w))"
proof -
  note f = users_filter_uid[OF assms(1,2)]
  have run: "budget w \<noteq> Some 0 \<Longrightarrow> User_recordFailedLoginAttempt cfg (uid u) now w =
     (if MAX_LOGIN_ATTEMPTS cfg \<le> coalesce0 (failed_login_attempts u) + 1 then
        if budget (spend w) = Some 0 then
          (Inl StoreError, (spend w)\<lparr>db := update_users (\<lambda>x. uid x = uid u) bump_attempts (db w)\<rparr>)
        else
          (Inr (AttemptLocked (now + minutes_ms (LOCKOUT_DURATION_MINUTES cfg))),
           (spend (spend w))\<lparr>db :=
              update_users (\<lambda>x. uid x = uid u)
                (set_locked (now + minutes_ms (LOCKOUT_DURATION_MINUTES cfg)))
                (update_users (\<lambda>x. uid x = uid u) bump_attempts (db w))\<rparr>)
      else
        (Inr (AttemptsRemaining (MAX_LOGIN_ATTEMPTS cfg - (coalesce0 (failed_login_attempts u) + 1))),
         (spend w)\<lparr>db := update_users (\<lambda>x. uid x = uid u) bump_attempts (db w)\<rparr>))"
    by (rule recordFailedLoginAttempt_run[OF _ f assms(3)])
  have b1: "accepts 1 w \<Longrightarrow> budget w \<noteq> Some 0"
    by (auto simp: accepts_def split: option.splits)
  have b2: "accepts 2 w \<Longrightarrow> budget w \<noteq> Some 0 \<and> budget (spend w) \<noteq> Some 0"
    by (auto simp: accepts_def spend_def split: option.splits)
  have b3: "budget w = Some 1 \<Longrightarrow> budget w \<noteq> Some 0 \<and> budget (spend w) = Some 0"
    by (auto simp: spend_def)
  show ?thesis
    using b1 b2 b3 by (auto simp: run)
qed

theorem recordFailedLoginAttempt_two_updates_witness:
  "integrity (db (demo_world (Some 2))) \<and> alice \<in> set (auth_users (db (demo_world (Some 2))))
   \<and> accepts 2 (demo_world (Some 2))
   \<and> fst (User_recordFailedLoginAttempt (default_config\<lparr>MAX_LOGIN_ATTEMPTS := 10\<rparr>) ''u1'' 1000
            (demo_world (Some 2))) = Inr (AttemptsRemaining 5)
   \<and> fst (User_recordFailedLoginAttempt default_config ''u1'' 1000 (demo_world (Some 2)))
       = Inr (AttemptLocked 901000)
   \<and> auth_users (db (snd (User_recordFailedLoginAttempt default_config ''u1'' 1000
                             (demo_world (Some 2)))))
       = [alice\<lparr>failed_login_attempts := Some 5, locked_until := Some 901000\<rparr>, bob, carol]"
proof -
  have d: "db (demo_world (Some 2)) = demo_db" by (simp add: demo_world_def)
  have i: "integrity (db (demo_world (Some 2)))"
    by (simp add: d integrity_def demo_db_def alice_def bob_def carol_def tokA_row_def)
  have m: "alice \<in> set (auth_users (db (demo_world (Some 2))))"
    by (simp add: d demo_db_def)
  have c: "coalesce0 (failed_login_attempts alice) < 2147483647"
    by (simp add: alice_def coalesce0_def)
  have a: "accepts 2 (demo_world (Some 2))" "accepts 1 (demo_world (Some 2))"
    by (simp_all add: accepts_def demo_world_def)
  from recordFailedLoginAttempt_two_updates[OF i m c, of "default_config\<lparr>MAX_LOGIN_ATTEMPTS := 10\<rparr>" 1000]
       recordFailedLoginAttempt_two_updates[OF i m c, of default_config 1000] a i m
  show ?thesis
    by (simp add: d alice_def bob_def carol_def coalesce0_def default_config_def demo_db_def
        update_users_def bump_attempts_def set_locked_def minutes_ms_def)
qed

text \<open>
  C2 as stated has the lock set in the same update as the increment. In the example store,
  with a store that fails after one statement, the fifth failure of \<open>alice\<close> leaves her
  counter at the threshold 5 and her row without a lock.
\<close>

theorem recordFailedLoginAttempt_lock_is_second_update:
  "fst (User_recordFailedLoginAttempt default_config ''u1'' 1000 (demo_world (Some 1)))
     = Inl StoreError
   \<and> auth_users (db (snd (User_recordFailedLoginAttempt default_config ''u1'' 1000
                             (demo_world (Some 1)))))
     = [alice\<lparr>failed_login_attempts := Some 5\<rparr>, bob, carol]
   \<and> locked_until (alice\<lparr>failed_login_attempts := Some 5\<rparr>) = None
   \<and> MAX_LOGIN_ATTEMPTS default_config = 5"
  by (simp add: User_recordFailedLoginAttempt_def bindE_def query_def increment_attempts_def
      Let_def demo_world_def demo_db_def alice_def bob_def carol_def tokA_row_def coalesce0_def default_config_def
      update_users_def bump_attempts_def spend_def)

section \<open>The lockout pre-check\<close>

lemma users_filter_email:
  assumes "integrity d" and "u \<in> set (auth_users d)"
  shows "filter (\<lambda>x. email x = email u) (auth_users d) = [u]"
proof -
  from assms(1) have "distinct (map email (auth_users d))" by (simp add: integrity_def)
  from filter_unique[OF this assms(2)] show ?thesis .
qed

lemma findByEmail_run:
  "budget w \<noteq> Some 0 \<Longrightarrow>
   User_findByEmail em w =
     (Inr (first_row (filter (\<lambda>u. email u = toLowerCase em) (auth_users (db w)))), spend w)"
  by (simp add: User_findByEmail_def bindE_def query_up returnE_def)

lemma isAccountLocked_run:
  assumes "budget w \<noteq> Some 0" and "filter (\<lambda>x. uid x = userId) (auth_users (db w)) = [u]"
  shows "User_isAccountLocked userId now w =
     (Inr (case locked_until u of
             None \<Rightarrow> NotLocked
           | Some t \<Rightarrow> if now < t then Locked t (ceil_minutes (t - now)) else NotLocked),
      spend w)"
  using assms
  by (simp add: User_isAccountLocked_def bindE_def query_up returnE_def split: option.splits)

lemma ceil_minutes_pos: "0 < ms \<Longrightarrow> 1 \<le> ceil_minutes ms"
  unfolding ceil_minutes_def by linarith

text \<open>
  C4. For a stored credential and a time strictly before its \<^verbatim>\<open>locked_until\<close>,
  \<^verbatim>\<open>isAccountLocked\<close> returns locked with the minutes remaining (rounded up, at least
  one), and \<^verbatim>\<open>POST /auth/signin\<close> for its email fails with
  \<^verbatim>\<open>TooManyRequestsError\<close>: no password comparison is logged, whatever the password
  and the comparison function, and the store is unchanged. Once the time is at or past
  \<^verbatim>\<open>locked_until\<close>, or when no lock is stored, \<^verbatim>\<open>isAccountLocked\<close> returns
  not locked and the store is unchanged.
\<close>

theorem lockout_precheck:
  assumes "integrity (db w)" and "u \<in> set (auth_users (db w))"
  shows
   "(accepts 1 w \<and> locked_until u = Some t \<and> now < t \<longrightarrow>
       fst (User_isAccountLocked (uid u) now w) = Inr (Locked t (ceil_minutes (t - now)))
       \<and> 1 \<le> ceil_minutes (t - now)
       \<and> db (snd (User_isAccountLocked (uid u) now w)) = db w)
  \<and> (accepts 2 w \<and> locked_until u = Some t \<and> now < t \<and> email u = toLowerCase em \<longrightarrow>
       fst (signin cfg cmp em password now now2 now3 w) =
         Inl (TooManyRequestsError
               (''Account is locked. Try again in '' @ show_int (ceil_minutes (t - now)) @
                '' minutes.''))
       \<and> events (snd (signin cfg cmp em password now now2 now3 w)) = events w
       \<and> db (snd (signin cfg cmp em password now now2 now3 w)) = db w)
  \<and> (accepts 1 w \<and> (locked_until u = None \<or> (\<exists>t'. locked_until u = Some t' \<and> t' \<le> now)) \<longrightarrow>
       fst (User_isAccountLocked (uid u) now w) = Inr NotLocked
       \<and> db (snd (User_isAccountLocked (uid u) now w)) = db w)"
proof -
  note fu = users_filter_uid[OF assms]
  note fe = users_filter_email[OF assms]
  have b1: "accepts 1 w \<Longrightarrow> budget w \<noteq> Some 0"
    by (auto simp: accepts_def split: option.splits)
  have b2: "accepts 2 w \<Longrightarrow> budget w \<noteq> Some 0 \<and> budget (spend w) \<noteq> Some 0"
    by (auto simp: accepts_def spend_def split: option.splits)
  have 1: "accepts 1 w \<and> locked_until u = Some t \<and> now < t \<longrightarrow>
       fst (User_isAccountLocked (uid u) now w) = Inr (Locked t (ceil_minutes (t - now)))
       \<and> 1 \<le> ceil_minutes (t - now)
       \<and> db (snd (User_isAccountLocked (uid u) now w)) = db w"
    using b1 by (auto simp: isAccountLocked_run[OF _ fu] ceil_minutes_pos)
  have 3: "accepts 1 w \<and> (locked_until u = None \<or> (\<exists>t'. locked_until u = Some t' \<and> t' \<le> now)) \<longrightarrow>
       fst (User_isAccountLocked (uid u) now w) = Inr NotLocked
       \<and> db (snd (User_isAccountLocked (uid u) now w)) = db w"
    using b1 by (auto simp: isAccountLocked_run[OF _ fu])
  have 2: "accepts 2 w \<and> locked_until u = Some t \<and> now < t \<and> email u = toLowerCase em \<longrightarrow>
       fst (signin cfg cmp em password now now2 now3 w) =
         Inl (TooManyRequestsError
               (''Account is locked. Try again in '' @ show_int (ceil_minutes (t - now)) @
                '' minutes.''))
       \<and> events (snd (signin cfg cmp em password now now2 now3 w)) = events w
       \<and> db (snd (signin cfg cmp em password now now2 now3 w)) = db w"
  proof
    assume h: "accepts 2 w \<and> locked_until u = Some t \<and> now < t \<and> email u = toLowerCase em"
    with b2 have b: "budget w \<noteq> Some 0" "budget (spend w) \<noteq> Some 0" by auto
    from h fe have f: "filter (\<lambda>x. email x = toLowerCase em) (auth_users (db w)) = [u]" by simp
    from fu have fu': "filter (\<lambda>x. uid x = uid u) (auth_users (db (spend w))) = [u]" by simp
    show "fst (signin cfg cmp em password now now2 now3 w) =
         Inl (TooManyRequestsError
               (''Account is locked. Try again in '' @ show_int (ceil_minutes (t - now)) @
                '' minutes.''))
       \<and> events (snd (signin cfg cmp em password now now2 now3 w)) = events w
       \<and> db (snd (signin cfg cmp em password now now2 now3 w)) = db w"
      using h
      by (simp add: signin_def bindE_def findByEmail_run[OF b(1)] f first_row_def
          isAccountLocked_run[OF b(2) fu'] throwE_def)
  qed
  from 1 2 3 show ?thesis by blast
qed

theorem lockout_precheck_witness:
  "integrity (db (demo_world (Some 2))) \<and> bob \<in> set (auth_users (db (demo_world (Some 2))))
   \<and> accepts 2 (demo_world (Some 2))
   \<and> fst (User_isAccountLocked ''u2'' 1000 (demo_world (Some 2))) = Inr (Locked 2000 1)
   \<and> fst (signin default_config demo_cmp ''Bob@Example.com'' ''secret'' 1000 1001 1002
            (demo_world (Some 2)))
       = Inl (TooManyRequestsError ''Account is locked. Try again in 1 minutes.'')
   \<and> events (snd (signin default_config demo_cmp ''Bob@Example.com'' ''secret'' 1000 1001 1002
            (demo_world (Some 2)))) = []
   \<and> fst (User_isAccountLocked ''u2'' 2000 (demo_world (Some 2))) = Inr NotLocked
   \<and> fst (User_isAccountLocked ''u1'' 1000 (demo_world (Some 2))) = Inr NotLocked"
proof -
  have d: "db (demo_world (Some 2)) = demo_db" by (simp add: demo_world_def)
  have i: "integrity (db (demo_world (Some 2)))" by (simp add: d demo_integrity)
  have mb: "bob \<in> set (auth_users (db (demo_world (Some 2))))"
    and ma: "alice \<in> set (auth_users (db (demo_world (Some 2))))"
    by (simp_all add: d demo_db_def)
  have a: "accepts 2 (demo_world (Some 2))" "accepts 1 (demo_world (Some 2))"
    by (simp_all add: accepts_def demo_world_def)
  have e: "events (demo_world (Some 2)) = []" by (simp add: demo_world_def)
  have "toLowerCase ''Bob@Example.com'' = ''bob@example.com''"
    by code_simp
  then have l: "email bob = toLowerCase ''Bob@Example.com''"
    by (simp add: bob_def)
  have c: "ceil_minutes 1000 = 1" by (simp add: ceil_minutes_def)
  have s: "show_int 1 = ''1''" by (simp add: show_int_def show_nat.simps hex_chars_def)
  from lockout_precheck[OF i mb, of 2000 1000 "''Bob@Example.com''" default_config demo_cmp "''secret''" 1001 1002]
    lockout_precheck[OF i mb, of 2000 2000]
    lockout_precheck[OF i ma, of 0 1000]
    a i mb l
  show ?thesis
    by (simp add: bob_def alice_def c s e)
qed

section \<open>Signing in with bad credentials\<close>

lemma signin_unknown_run:
  assumes "budget w \<noteq> Some 0"
    and "\<forall>x \<in> set (auth_users (db w)). email x \<noteq> toLowerCase em"
  shows "signin cfg cmp em password now1 now2 now3 w =
           (Inl (UnauthorizedError ''Invalid email or password''), spend w)"
proof -
  from assms(2) have "filter (\<lambda>x. email x = toLowerCase em) (auth_users (db w)) = []"
    by (simp add: filter_empty_conv)
  then show ?thesis
    by (simp add: signin_def bindE_def findByEmail_run[OF assms(1)] first_row_def throwE_def)
qed

lemma signin_wrong_password_run:
  assumes b: "budget w \<noteq> Some 0" "budget (spend w) \<noteq> Some 0"
    and i: "integrity (db w)" and u: "u \<in> set (auth_users (db w))"
    and e: "email u = toLowerCase em"
    and l: "not_locked_at now1 u"
    and c: "\<not> cmp password (password_hash u)"
  shows "signin cfg cmp em password now1 now2 now3 w =
     (case User_recordFailedLoginAttempt cfg (uid u) now2
             ((spend (spend w))\<lparr>events := events w @ [PasswordCompared password (password_hash u)]\<rparr>) of
        (Inl err, w') \<Rightarrow> (Inl err, w')
      | (Inr (AttemptLocked t), w') \<Rightarrow>
          (Inl (TooManyRequestsError
                 (''Account locked due to too many failed attempts. Try again in '' @
                  show_int (LOCKOUT_DURATION_MINUTES cfg) @ '' minutes.'')),
           w'\<lparr>events := events w' @ [AccountLockedEmail em (LOCKOUT_DURATION_MINUTES cfg)]\<rparr>)
      | (Inr (AttemptsRemaining n), w') \<Rightarrow>
          (Inl (UnauthorizedError
                 (''Invalid email or password. '' @ show_int n @ '' attempts remaining.'')), w'))"
proof -
  from users_filter_email[OF i u] e
  have f: "filter (\<lambda>x. email x = toLowerCase em) (auth_users (db w)) = [u]" by simp
  from users_filter_uid[OF i u]
  have fu: "filter (\<lambda>x. uid x = uid u) (auth_users (db (spend w))) = [u]" by simp
  from l have lk: "User_isAccountLocked (uid u) now1 (spend w) = (Inr NotLocked, spend (spend w))"
    by (auto simp: isAccountLocked_run[OF b(2) fu] not_locked_at_def split: option.splits)
  show ?thesis
    using c
    by (simp add: signin_def bindE_def findByEmail_run[OF b(1)] f first_row_def lk
        User_verifyPassword_def emit_def returnE_def throwE_def
        split: prod.splits sum.splits attempt_result.splits)
qed

lemma signin_attempts_remaining:
  assumes a: "accepts 3 w"
    and i: "integrity (db w)" and u: "u \<in> set (auth_users (db w))"
    and e: "email u = toLowerCase em"
    and l: "not_locked_at now1 u"
    and c: "\<not> cmp password (password_hash u)"
    and n: "coalesce0 (failed_login_attempts u) + 1 < MAX_LOGIN_ATTEMPTS cfg"
    and o: "coalesce0 (failed_login_attempts u) < 2147483647"
  shows "fst (signin cfg cmp em password now1 now2 now3 w) =
     Inl (UnauthorizedError
           (''Invalid email or password. '' @
            show_int (MAX_LOGIN_ATTEMPTS cfg - (coalesce0 (failed_login_attempts u) + 1)) @
            '' attempts remaining.''))"
proof -
  from a have b: "budget w \<noteq> Some 0" "budget (spend w) \<noteq> Some 0"
      "budget (spend (spend w)) \<noteq> Some 0"
    by (auto simp: accepts_def spend_def split: option.splits)
  let ?w2 = "(spend (spend w))\<lparr>events := events w @ [PasswordCompared password (password_hash u)]\<rparr>"
  from b(3) have b3: "budget ?w2 \<noteq> Some 0" by simp
  from users_filter_uid[OF i u]
  have fu: "filter (\<lambda>x. uid x = uid u) (auth_users (db ?w2)) = [u]" by simp
  show ?thesis
    using n
    by (simp add: signin_wrong_password_run[where cmp=cmp and password=password, OF b(1,2) i u e l c]
        recordFailedLoginAttempt_run[OF b3 fu o])
qed

text \<open>
  C6, as the code has it. While the store answers and the schema's constraints hold,
  \<^verbatim>\<open>POST /auth/signin\<close> fails with \<^verbatim>\<open>UnauthorizedError\<close> and the message
  ``Invalid email or password'' when no credential has the lower-cased email. For a stored
  credential that is not locked, a wrong password that leaves the incremented counter below
  the threshold fails with \<^verbatim>\<open>UnauthorizedError\<close> too, but with the message
  ``Invalid email or password. N attempts remaining.'', N being the threshold minus the
  incremented counter: the same error class, never the same message.
\<close>

theorem signin_failures_differ:
  assumes "integrity (db w)" and "accepts 3 w"
  shows
   "((\<forall>x \<in> set (auth_users (db w)). email x \<noteq> toLowerCase em0) \<longrightarrow>
       fst (signin cfg cmp em0 password0 now1 now2 now3 w) =
         Inl (UnauthorizedError ''Invalid email or password''))
  \<and> (u \<in> set (auth_users (db w)) \<and> email u = toLowerCase em \<and> not_locked_at now1 u
       \<and> \<not> cmp password (password_hash u)
       \<and> coalesce0 (failed_login_attempts u) + 1 < MAX_LOGIN_ATTEMPTS cfg
       \<and> coalesce0 (failed_login_attempts u) < 2147483647 \<longrightarrow>
       fst (signin cfg cmp em password now1 now2 now3 w) =
         Inl (UnauthorizedError
               (''Invalid email or password. '' @
                show_int (MAX_LOGIN_ATTEMPTS cfg - (coalesce0 (failed_login_attempts u) + 1)) @
                '' attempts remaining.''))
       \<and> fst (signin cfg cmp em password now1 now2 now3 w) \<noteq>
           Inl (UnauthorizedError ''Invalid email or password''))"
proof -
  from assms(2) have b: "budget w \<noteq> Some 0"
    by (auto simp: accepts_def split: option.splits)
  show ?thesis
    by (auto simp: signin_unknown_run[OF b]
        signin_attempts_remaining[where cmp=cmp and password=password, OF assms(2,1)])
qed

lemma demo_lower_carol: "toLowerCase ''Carol@example.com'' = ''carol@example.com''"
  by code_simp

lemma demo_lower_nobody: "toLowerCase ''nobody@example.com'' = ''nobody@example.com''"
  by code_simp

lemma show_int_4: "show_int 4 = ''4''"
  by (simp add: show_int_def show_nat.simps hex_chars_def)

lemma demo_signin_facts:
  "integrity (db (demo_world None))" "accepts 3 (demo_world None)"
  "\<forall>x \<in> set (auth_users (db (demo_world None))). email x \<noteq> toLowerCase ''nobody@example.com''"
  "carol \<in> set (auth_users (db (demo_world None)))"
  "email carol = toLowerCase ''Carol@example.com''"
  "not_locked_at 1000 carol"
  "\<not> demo_cmp ''wrong'' (password_hash carol)"
  "coalesce0 (failed_login_attempts carol) + 1 < MAX_LOGIN_ATTEMPTS default_config"
  "coalesce0 (failed_login_attempts carol) < 2147483647"
proof -
  show "integrity (db (demo_world None))" by (simp add: demo_world_def demo_integrity)
qed (simp_all add: demo_world_def accepts_def demo_lower_carol demo_lower_nobody
      demo_db_def alice_def bob_def carol_def tokA_row_def not_locked_at_def demo_cmp_def coalesce0_def
      default_config_def)

theorem signin_failures_differ_witness:
  "integrity (db (demo_world None)) \<and> accepts 3 (demo_world None)
   \<and> fst (signin default_config demo_cmp ''nobody@example.com'' ''wrong'' 1000 1001 1002
            (demo_world None))
       = Inl (UnauthorizedError ''Invalid email or password'')
   \<and> fst (signin default_config demo_cmp ''Carol@example.com'' ''wrong'' 1000 1001 1002
            (demo_world None))
       = Inl (UnauthorizedError ''Invalid email or password. 4 attempts remaining.'')"
  using signin_failures_differ[OF demo_signin_facts(1,2), of "''nobody@example.com''"
      default_config demo_cmp "''wrong''" 1000 1001 1002 carol "''Carol@example.com''" "''wrong''"]
    demo_signin_facts
  by (simp add: carol_def coalesce0_def default_config_def show_int_4)

text \<open>
  C6 as stated has the two failures indistinguishable. In the example store a sign-in for
  an email that no credential has and a sign-in with a wrong password for \<open>carol\<close> end
  with different messages.
\<close>

theorem signin_discloses_existence:
  "fst (signin default_config demo_cmp ''nobody@example.com'' ''wrong'' 1000 1001 1002
          (demo_world None))
     = Inl (UnauthorizedError ''Invalid email or password'')
   \<and> fst (signin default_config demo_cmp ''Carol@example.com'' ''wrong'' 1000 1001 1002
            (demo_world None))
       = Inl (UnauthorizedError ''Invalid email or password. 4 attempts remaining.'')
   \<and> fst (signin default_config demo_cmp ''nobody@example.com'' ''wrong'' 1000 1001 1002
            (demo_world None))
       \<noteq> fst (signin default_config demo_cmp ''Carol@example.com'' ''wrong'' 1000 1001 1002
            (demo_world None))"
proof -
  have b: "budget (demo_world None) \<noteq> Some 0" by (simp add: demo_world_def)
  have 1: "fst (signin default_config demo_cmp ''nobody@example.com'' ''wrong'' 1000 1001 1002
          (demo_world None))
     = Inl (UnauthorizedError ''Invalid email or password'')"
    by (simp add: signin_unknown_run[OF b demo_signin_facts(3)])
  have 2: "fst (signin default_config demo_cmp ''Carol@example.com'' ''wrong'' 1000 1001 1002
            (demo_world None))
       = Inl (UnauthorizedError ''Invalid email or password. 4 attempts remaining.'')"
    using signin_attempts_remaining[where cmp=demo_cmp and password="''wrong''",
        OF demo_signin_facts(2,1,4,5,6,7,8,9), of 1001 1002]
    by (simp add: carol_def coalesce0_def default_config_def show_int_4)
  from 1 2 show ?thesis by simp
qed

section \<open>A lapsed lock\<close>






lemma resetFailedLoginAttempts_run:
  "User_resetFailedLoginAttempts userId w =
     (if budget w = Some 0 then (Inl StoreError, w)
      else (Inr (), (spend w)\<lparr>db := update_users (\<lambda>u. uid u = userId) clear_lockout (db w)\<rparr>))"
  by (simp add: User_resetFailedLoginAttempts_def bindE_def query_def returnE_def)










section \<open>Resetting a password\<close>

lemma updatePassword_run:
  "User_updatePassword hash userId password w =
     (if budget w = Some 0 then (Inl StoreError, w)
      else (Inr (), (spend w)\<lparr>db := reset_step1 hash userId password (db w)\<rparr>))"
  by (simp add: User_updatePassword_def bindE_def query_def returnE_def reset_step1_def)

lemma markAsUsed_run:
  "PasswordReset_markAsUsed token w =
     (if budget w = Some 0 then (Inl StoreError, w)
      else (Inr (), (spend w)\<lparr>db := reset_step2 token (db w)\<rparr>))"
  by (simp add: PasswordReset_markAsUsed_def bindE_def query_def returnE_def reset_step2_def)

lemma revokeAllForUser_run:
  "RefreshToken_revokeAllForUser userId w =
     (if budget w = Some 0 then (Inl StoreError, w)
      else (Inr (), (spend w)\<lparr>db := reset_step3 userId (db w)\<rparr>))"
  by (simp add: RefreshToken_revokeAllForUser_def bindE_def query_def returnE_def reset_step3_def)

lemma resetFailedLoginAttempts_step4:
  "User_resetFailedLoginAttempts userId w =
     (if budget w = Some 0 then (Inl StoreError, w)
      else (Inr (), (spend w)\<lparr>db := reset_step4 userId (db w)\<rparr>))"
  by (simp add: resetFailedLoginAttempts_run reset_step4_def)

text \<open>The handler after a successful validation: the four statements in a row.\<close>

lemma reset_password_after_validation:
  assumes "PasswordReset_validateToken token now w = (Inr (Valid userId em), w1)"
  shows "reset_password hash token password now w =
     bindE (User_updatePassword hash userId password) (\<lambda>_.
     bindE (PasswordReset_markAsUsed token) (\<lambda>_.
     bindE (RefreshToken_revokeAllForUser userId) (\<lambda>_.
     bindE (User_resetFailedLoginAttempts userId) (\<lambda>_. returnE reset_message)))) w1"
  by (simp add: reset_password_def bindE_def[of "PasswordReset_validateToken token now"] assms
      reset_message_def)

lemma reset_password_down0:
  "budget w = Some 0 \<Longrightarrow> reset_password hash token password now w = (Inl StoreError, w)"
  by (simp add: reset_password_def PasswordReset_validateToken_def
      PasswordReset_findByToken_def bindE_def query_down)

lemma reset_password_down1:
  assumes "PasswordReset_validateToken token now w = (Inr (Valid userId em), spend w)"
    and "budget (spend w) = Some 0"
  shows "reset_password hash token password now w = (Inl StoreError, spend w)"
  using assms(2)
  by (simp add: reset_password_after_validation[OF assms(1)] bindE_def updatePassword_run)

lemma reset_password_down2:
  assumes "PasswordReset_validateToken token now w = (Inr (Valid userId em), spend w)"
    and "budget (spend w) \<noteq> Some 0" and "budget (spend (spend w)) = Some 0"
  shows "reset_password hash token password now w =
     (Inl StoreError, (spend (spend w))\<lparr>db := reset_step1 hash userId password (db w)\<rparr>)"
  using assms(2,3)
  by (simp add: reset_password_after_validation[OF assms(1)] bindE_def updatePassword_run
      markAsUsed_run)

lemma reset_password_down3:
  assumes "PasswordReset_validateToken token now w = (Inr (Valid userId em), spend w)"
    and "budget (spend w) \<noteq> Some 0" and "budget (spend (spend w)) \<noteq> Some 0"
    and "budget (spend (spend (spend w))) = Some 0"
  shows "reset_password hash token password now w =
     (Inl StoreError,
      (spend (spend (spend w)))\<lparr>db :=
         reset_step2 token (reset_step1 hash userId password (db w))\<rparr>)"
  using assms(2,3,4)
  by (simp add: reset_password_after_validation[OF assms(1)] bindE_def updatePassword_run
      markAsUsed_run revokeAllForUser_run)

lemma reset_password_down4:
  assumes "PasswordReset_validateToken token now w = (Inr (Valid userId em), spend w)"
    and "budget (spend w) \<noteq> Some 0" and "budget (spend (spend w)) \<noteq> Some 0"
    and "budget (spend (spend (spend w))) \<noteq> Some 0"
    and "budget (spend (spend (spend (spend w)))) = Some 0"
  shows "reset_password hash token password now w =
     (Inl StoreError,
      (spend (spend (spend (spend w))))\<lparr>db :=
         reset_step3 userId (reset_step2 token (reset_step1 hash userId password (db w)))\<rparr>)"
  using assms(2,3,4,5)
  by (simp add: reset_password_after_validation[OF assms(1)] bindE_def updatePassword_run
      markAsUsed_run revokeAllForUser_run resetFailedLoginAttempts_step4)

lemma reset_password_up:
  assumes "PasswordReset_validateToken token now w = (Inr (Valid userId em), spend w)"
    and "budget (spend w) \<noteq> Some 0" and "budget (spend (spend w)) \<noteq> Some 0"
    and "budget (spend (spend (spend w))) \<noteq> Some 0"
    and "budget (spend (spend (spend (spend w)))) \<noteq> Some 0"
  shows "reset_password hash token password now w =
     (Inr reset_message,
      (spend (spend (spend (spend (spend w)))))\<lparr>db :=
         reset_step4 userId
           (reset_step3 userId (reset_step2 token (reset_step1 hash userId password (db w))))\<rparr>)"
  using assms(2,3,4,5)
  by (simp add: reset_password_after_validation[OF assms(1)] bindE_def updatePassword_run
      markAsUsed_run revokeAllForUser_run resetFailedLoginAttempts_step4 returnE_def)

lemma token_unused_before:
  assumes "integrity d" and "r \<in> set (auth_password_resets d)" and "\<not> pr_used r"
  shows "\<not> token_used (pr_token r) d"
proof
  assume "token_used (pr_token r) d"
  then obtain r' where r': "r' \<in> set (auth_password_resets d)" "pr_token r' = pr_token r" "pr_used r'"
    by (auto simp: token_used_def)
  from assms(1) have "distinct (map pr_token (auth_password_resets d))"
    by (simp add: integrity_def)
  from filter_unique[OF this assms(2)]
  have f: "filter (\<lambda>y. pr_token y = pr_token r) (auth_password_resets d) = [r]" .
  from r'(1,2) have "r' \<in> set (filter (\<lambda>y. pr_token y = pr_token r) (auth_password_resets d))"
    by simp
  with f have "r' = r" by simp
  with r'(3) assms(3) show False by simp
qed

lemma token_used_step1 [simp]:
  "token_used token (reset_step1 hash userId password d) = token_used token d"
  by (simp add: token_used_def reset_step1_def update_users_def)

lemma auth_users_update_users:
  "auth_users (update_users P f d) = map (\<lambda>x. if P x then f x else x) (auth_users d)"
  by (simp add: update_users_def)

lemma hashes_map_keep:
  assumes "\<And>x. uid (f x) = uid x" and "\<And>x. password_hash (f x) = password_hash x"
  shows "map password_hash (filter (\<lambda>u. uid u = k) (map (\<lambda>x. if P x then f x else x) xs))
       = map password_hash (filter (\<lambda>u. uid u = k) xs)"
  by (induction xs) (simp_all add: assms)

lemma hashes_map_set_password:
  "map password_hash (filter (\<lambda>u. uid u = k)
         (map (\<lambda>x. if uid x = k then set_password h x else x) xs))
   = map (\<lambda>_. h) (filter (\<lambda>u. uid u = k) xs)"
  by (induction xs) (simp_all add: set_password_def)

lemma password_is_step1:
  assumes "u \<in> set (auth_users d)" and "uid u = userId"
  shows "password_is userId (hash password) (reset_step1 hash userId password d)"
proof -
  from assms have "filter (\<lambda>u. uid u = userId) (auth_users d) \<noteq> []"
    by (auto simp: filter_empty_conv)
  then show ?thesis
    by (auto simp: password_is_def stored_hashes_def reset_step1_def auth_users_update_users
        hashes_map_set_password)
qed

lemma password_is_step2 [simp]:
  "password_is userId h (reset_step2 token d) = password_is userId h d"
  by (simp add: password_is_def stored_hashes_def reset_step2_def update_resets_def)

lemma password_is_step3 [simp]:
  "password_is userId h (reset_step3 userId' d) = password_is userId h d"
  by (simp add: password_is_def stored_hashes_def reset_step3_def update_refresh_def)

lemma password_is_step4 [simp]:
  "password_is userId h (reset_step4 userId' d) = password_is userId h d"
proof -
  have 1: "\<And>x. uid (clear_lockout x) = uid x"
    and 2: "\<And>x. password_hash (clear_lockout x) = password_hash x"
    by (simp_all add: clear_lockout_def)
  show ?thesis
    by (simp add: password_is_def stored_hashes_def reset_step4_def auth_users_update_users
        hashes_map_keep[of clear_lockout, OF 1 2])
qed

text \<open>
  C1, as the code has it. For a stored, unused, unexpired reset token,
  \<^verbatim>\<open>POST /auth/reset-password\<close> runs its statements one after the other and outside
  any transaction: the validation, then the new password hash, then the token marked used,
  then the credential's refresh tokens revoked, then the lockout state reset. When the store
  executes all five the request succeeds and all four changes are stored. When the store
  fails earlier the request throws, the changes of the statements already executed stay and
  the later ones are missing. So the token is never marked used without the password
  changed; the password does stay changed with the token unused when the store fails after
  the password update.
\<close>

theorem reset_password_sequential:
  assumes "integrity (db w)" and "r \<in> set (auth_password_resets (db w))"
    and "usable now r"
  shows
   "(accepts 5 w \<longrightarrow>
       fst (reset_password hash (pr_token r) password now w) = Inr reset_message
       \<and> db (snd (reset_password hash (pr_token r) password now w)) =
           reset_step4 (pr_user_id r)
             (reset_step3 (pr_user_id r)
               (reset_step2 (pr_token r) (reset_step1 hash (pr_user_id r) password (db w)))))
  \<and> (budget w = Some 0 \<or> budget w = Some 1 \<longrightarrow>
       fst (reset_password hash (pr_token r) password now w) = Inl StoreError
       \<and> db (snd (reset_password hash (pr_token r) password now w)) = db w)
  \<and> (budget w = Some 2 \<longrightarrow>
       fst (reset_password hash (pr_token r) password now w) = Inl StoreError
       \<and> db (snd (reset_password hash (pr_token r) password now w)) =
           reset_step1 hash (pr_user_id r) password (db w))
  \<and> (budget w = Some 3 \<longrightarrow>
       fst (reset_password hash (pr_token r) password now w) = Inl StoreError
       \<and> db (snd (reset_password hash (pr_token r) password now w)) =
           reset_step2 (pr_token r) (reset_step1 hash (pr_user_id r) password (db w)))
  \<and> (budget w = Some 4 \<longrightarrow>
       fst (reset_password hash (pr_token r) password now w) = Inl StoreError
       \<and> db (snd (reset_password hash (pr_token r) password now w)) =
           reset_step3 (pr_user_id r)
             (reset_step2 (pr_token r) (reset_step1 hash (pr_user_id r) password (db w))))
  \<and> (token_used (pr_token r) (db (snd (reset_password hash (pr_token r) password now w))) \<longrightarrow>
       password_is (pr_user_id r) (hash password)
         (db (snd (reset_password hash (pr_token r) password now w))))"
proof -
  from join_resets_unique[OF assms(1,2)]
  obtain u where u: "u \<in> set (auth_users (db w))" "uid u = pr_user_id r"
    "join_resets (pr_token r) (db w) = [(r, u)]" by blast
  from assms(3) have v: "\<not> pr_used r" "\<not> pr_expires_at r < now" by (simp_all add: usable_def)
  have val: "budget w \<noteq> Some 0 \<Longrightarrow>
      PasswordReset_validateToken (pr_token r) now w = (Inr (Valid (pr_user_id r) (email u)), spend w)"
  proof -
    assume "budget w \<noteq> Some 0"
    then have a: "accepts (Suc 0) w" by (auto simp: accepts_def split: option.splits)
    from u(3) v show ?thesis by (simp add: validateToken_run[OF a])
  qed
  note unused = token_unused_before[OF assms(1,2) v(1)]
  note p1 = password_is_step1[OF u(1,2), of hash password]
  let ?R = "reset_password hash (pr_token r) password now w"
  let ?d1 = "reset_step1 hash (pr_user_id r) password (db w)"
  let ?d2 = "reset_step2 (pr_token r) ?d1"
  let ?d3 = "reset_step3 (pr_user_id r) ?d2"
  let ?d4 = "reset_step4 (pr_user_id r) ?d3"
  have 1: "accepts 5 w \<longrightarrow> fst ?R = Inr reset_message \<and> db (snd ?R) = ?d4"
  proof
    assume "accepts 5 w"
    then have b: "budget w \<noteq> Some 0" "budget (spend w) \<noteq> Some 0"
      "budget (spend (spend w)) \<noteq> Some 0" "budget (spend (spend (spend w))) \<noteq> Some 0"
      "budget (spend (spend (spend (spend w)))) \<noteq> Some 0"
      by (auto simp: accepts_def spend_def split: option.splits)
    show "fst ?R = Inr reset_message \<and> db (snd ?R) = ?d4"
      by (simp add: reset_password_up[OF val[OF b(1)] b(2,3,4,5)])
  qed
  have 2: "budget w = Some 0 \<or> budget w = Some 1 \<longrightarrow> fst ?R = Inl StoreError \<and> db (snd ?R) = db w"
  proof
    assume "budget w = Some 0 \<or> budget w = Some 1"
    then show "fst ?R = Inl StoreError \<and> db (snd ?R) = db w"
    proof
      assume "budget w = Some 0"
      then show ?thesis by (simp add: reset_password_down0)
    next
      assume h: "budget w = Some 1"
      then have b: "budget w \<noteq> Some 0" "budget (spend w) = Some 0" by (simp_all add: spend_def)
      show ?thesis by (simp add: reset_password_down1[OF val[OF b(1)] b(2)])
    qed
  qed
  have 3: "budget w = Some 2 \<longrightarrow> fst ?R = Inl StoreError \<and> db (snd ?R) = ?d1"
  proof
    assume h: "budget w = Some 2"
    then have b: "budget w \<noteq> Some 0" "budget (spend w) \<noteq> Some 0"
      "budget (spend (spend w)) = Some 0" by (simp_all add: spend_def)
    show "fst ?R = Inl StoreError \<and> db (snd ?R) = ?d1"
      by (simp add: reset_password_down2[OF val[OF b(1)] b(2,3)])
  qed
  have 4: "budget w = Some 3 \<longrightarrow> fst ?R = Inl StoreError \<and> db (snd ?R) = ?d2"
  proof
    assume h: "budget w = Some 3"
    then have b: "budget w \<noteq> Some 0" "budget (spend w) \<noteq> Some 0"
      "budget (spend (spend w)) \<noteq> Some 0" "budget (spend (spend (spend w))) = Some 0"
      by (simp_all add: spend_def)
    show "fst ?R = Inl StoreError \<and> db (snd ?R) = ?d2"
      by (simp add: reset_password_down3[OF val[OF b(1)] b(2,3,4)])
  qed
  have 5: "budget w = Some 4 \<longrightarrow> fst ?R = Inl StoreError \<and> db (snd ?R) = ?d3"
  proof
    assume h: "budget w = Some 4"
    then have b: "budget w \<noteq> Some 0" "budget (spend w) \<noteq> Some 0"
      "budget (spend (spend w)) \<noteq> Some 0" "budget (spend (spend (spend w))) \<noteq> Some 0"
      "budget (spend (spend (spend (spend w)))) = Some 0"
      by (simp_all add: spend_def)
    show "fst ?R = Inl StoreError \<and> db (snd ?R) = ?d3"
      by (simp add: reset_password_down4[OF val[OF b(1)] b(2,3,4,5)])
  qed
  have cases: "accepts 5 w \<or> (budget w = Some 0 \<or> budget w = Some 1) \<or> budget w = Some 2
      \<or> budget w = Some 3 \<or> budget w = Some 4"
    by (cases "budget w") (auto simp: accepts_def)
  have 6: "token_used (pr_token r) (db (snd ?R)) \<longrightarrow>
       password_is (pr_user_id r) (hash password) (db (snd ?R))"
    using cases 1 2 3 4 5 unused p1 by (elim disjE) simp_all
  from 1 2 3 4 5 6 show ?thesis by blast
qed


lemma demo_tokA_facts:
  "integrity (db (demo_world b))" "tokA_row \<in> set (auth_password_resets (db (demo_world b)))"
  "usable 1000 tokA_row" "pr_token tokA_row = ''tokA''" "pr_user_id tokA_row = ''u1''"
proof -
  show "integrity (db (demo_world b))" by (simp add: demo_world_def demo_integrity)
qed (simp_all add: demo_world_def demo_db_def tokA_row_def usable_def)

lemma demo_hash_new: "demo_hash ''NewPass1'' = ''bcrypt:NewPass1''"
  by (simp add: demo_hash_def)

theorem reset_password_sequential_witness:
  "integrity (db (demo_world None))
   \<and> tokA_row \<in> set (auth_password_resets (db (demo_world None)))
   \<and> usable 1000 tokA_row \<and> accepts 5 (demo_world None)
   \<and> fst (reset_password demo_hash ''tokA'' ''NewPass1'' 1000 (demo_world None)) = Inr reset_message
   \<and> db (snd (reset_password demo_hash ''tokA'' ''NewPass1'' 1000 (demo_world None))) =
        \<lparr>auth_users =
           [alice\<lparr>password_hash := ''bcrypt:NewPass1'', failed_login_attempts := Some 0,
                  locked_until := None\<rparr>, bob, carol],
         auth_refresh_tokens =
           [\<lparr>rt_user_id = ''u1'', rt_token = ''r1'', rt_expires_at = 9000, rt_revoked = True\<rparr>,
            \<lparr>rt_user_id = ''u2'', rt_token = ''r2'', rt_expires_at = 9000, rt_revoked = True\<rparr>],
         auth_password_resets =
           [\<lparr>pr_user_id = ''u1'', pr_token = ''tokOld'', pr_expires_at = 500, pr_used = True\<rparr>,
            tokA_row\<lparr>pr_used := True\<rparr>]\<rparr>"
proof -
  have a: "accepts 5 (demo_world None)" by (simp add: accepts_def demo_world_def)
  have d: "db (demo_world None) = demo_db" by (simp add: demo_world_def)
  have e: "reset_step4 ''u1'' (reset_step3 ''u1'' (reset_step2 ''tokA''
             (reset_step1 demo_hash ''u1'' ''NewPass1'' demo_db))) =
        \<lparr>auth_users =
           [alice\<lparr>password_hash := ''bcrypt:NewPass1'', failed_login_attempts := Some 0,
                  locked_until := None\<rparr>, bob, carol],
         auth_refresh_tokens =
           [\<lparr>rt_user_id = ''u1'', rt_token = ''r1'', rt_expires_at = 9000, rt_revoked = True\<rparr>,
            \<lparr>rt_user_id = ''u2'', rt_token = ''r2'', rt_expires_at = 9000, rt_revoked = True\<rparr>],
         auth_password_resets =
           [\<lparr>pr_user_id = ''u1'', pr_token = ''tokOld'', pr_expires_at = 500, pr_used = True\<rparr>,
            tokA_row\<lparr>pr_used := True\<rparr>]\<rparr>"
    by (simp add: reset_step1_def reset_step2_def reset_step3_def reset_step4_def demo_db_def
        update_users_def update_resets_def update_refresh_def alice_def bob_def carol_def
        tokA_row_def set_password_def mark_used_def mark_revoked_def clear_lockout_def
        demo_hash_def)
  from reset_password_sequential[where hash=demo_hash and password="''NewPass1''",
      OF demo_tokA_facts(1,2)[of None] demo_tokA_facts(3)] a
  have "fst (reset_password demo_hash ''tokA'' ''NewPass1'' 1000 (demo_world None)) = Inr reset_message
    \<and> db (snd (reset_password demo_hash ''tokA'' ''NewPass1'' 1000 (demo_world None))) =
        reset_step4 ''u1'' (reset_step3 ''u1'' (reset_step2 ''tokA''
             (reset_step1 demo_hash ''u1'' ''NewPass1'' demo_db)))"
    by (simp add: demo_tokA_facts(4,5) d)
  with e a demo_tokA_facts(1,2)[of None] demo_tokA_facts(3) show ?thesis by simp
qed

text \<open>
  C1 as stated has the four changes as one atomic unit. In the example store, with a store
  that fails after two statements, resetting the password of \<open>alice\<close> with her valid
  token throws, leaves her password changed and leaves the token unused.
\<close>

theorem reset_password_not_atomic:
  "fst (PasswordReset_validateToken ''tokA'' 1000 (demo_world (Some 2)))
     = Inr (Valid ''u1'' ''alice@example.com'')
   \<and> fst (reset_password demo_hash ''tokA'' ''NewPass1'' 1000 (demo_world (Some 2)))
       = Inl StoreError
   \<and> db (snd (reset_password demo_hash ''tokA'' ''NewPass1'' 1000 (demo_world (Some 2))))
       = demo_db\<lparr>auth_users := [alice\<lparr>password_hash := ''bcrypt:NewPass1''\<rparr>, bob, carol]\<rparr>
   \<and> password_is ''u1'' ''bcrypt:NewPass1''
        (db (snd (reset_password demo_hash ''tokA'' ''NewPass1'' 1000 (demo_world (Some 2)))))
   \<and> \<not> token_used ''tokA''
        (db (snd (reset_password demo_hash ''tokA'' ''NewPass1'' 1000 (demo_world (Some 2)))))"
proof -
  let ?w = "demo_world (Some 2)"
  have d: "db ?w = demo_db" by (simp add: demo_world_def)
  have b: "budget ?w \<noteq> Some 0" "budget (spend ?w) \<noteq> Some 0" "budget (spend (spend ?w)) = Some 0"
    by (simp_all add: demo_world_def spend_def)
  have a: "accepts (Suc 0) ?w" by (simp add: accepts_def demo_world_def)
  have j: "join_resets ''tokA'' demo_db = [(tokA_row, alice)]"
    by (simp add: join_resets_def demo_db_def alice_def bob_def carol_def tokA_row_def)
  have val: "PasswordReset_validateToken ''tokA'' 1000 ?w =
      (Inr (Valid ''u1'' ''alice@example.com''), spend ?w)"
    by (simp add: validateToken_run[OF a] d j tokA_row_def alice_def)
  have s1: "reset_step1 demo_hash ''u1'' ''NewPass1'' demo_db =
      demo_db\<lparr>auth_users := [alice\<lparr>password_hash := ''bcrypt:NewPass1''\<rparr>, bob, carol]\<rparr>"
    by (simp add: reset_step1_def update_users_def demo_db_def alice_def bob_def carol_def
        set_password_def demo_hash_def)
  have r: "reset_password demo_hash ''tokA'' ''NewPass1'' 1000 ?w =
      (Inl StoreError, (spend (spend ?w))\<lparr>db :=
         demo_db\<lparr>auth_users := [alice\<lparr>password_hash := ''bcrypt:NewPass1''\<rparr>, bob, carol]\<rparr>\<rparr>)"
    using reset_password_down2[OF val b(2,3), of demo_hash "''NewPass1''"] by (simp add: d s1)
  have p: "password_is ''u1'' ''bcrypt:NewPass1''
      (demo_db\<lparr>auth_users := [alice\<lparr>password_hash := ''bcrypt:NewPass1''\<rparr>, bob, carol]\<rparr>)"
    by (simp add: password_is_def stored_hashes_def alice_def bob_def carol_def)
  have t: "\<not> token_used ''tokA''
      (demo_db\<lparr>auth_users := [alice\<lparr>password_hash := ''bcrypt:NewPass1''\<rparr>, bob, carol]\<rparr>)"
    by (simp add: token_used_def demo_db_def tokA_row_def)
  from val r p t show ?thesis by simp
qed

section \<open>The form of the tokens\<close>

lemma hex_chars_nth_inj:
  "i < 16 \<Longrightarrow> j < 16 \<Longrightarrow> hex_chars ! i = hex_chars ! j \<Longrightarrow> i = j"
proof -
  have d: "distinct hex_chars" and l: "length hex_chars = 16"
    by (simp_all add: hex_chars_def)
  assume "i < 16" "j < 16" "hex_chars ! i = hex_chars ! j"
  with d l show "i = j" by (simp add: nth_eq_iff_index_eq)
qed

lemma hex_chars_nth_mem: "i < 16 \<Longrightarrow> hex_chars ! i \<in> set hex_chars"
proof -
  have "length hex_chars = 16" by (simp add: hex_chars_def)
  then show "i < 16 \<Longrightarrow> hex_chars ! i \<in> set hex_chars" by simp
qed

lemma byte_div_16: "unat (b :: 8 word) div 16 < 16"
proof -
  have "unat b < 2 ^ LENGTH(8)" by (rule unsigned_less)
  then show ?thesis by simp
qed

lemma hex_byte_inj: "hex_byte a = hex_byte b \<Longrightarrow> a = b"
proof -
  assume "hex_byte a = hex_byte b"
  then have 1: "hex_chars ! (unat a div 16) = hex_chars ! (unat b div 16)"
    and 2: "hex_chars ! (unat a mod 16) = hex_chars ! (unat b mod 16)"
    by (simp_all add: hex_byte_def)
  from 1 have d: "unat a div 16 = unat b div 16"
    by (rule hex_chars_nth_inj[OF byte_div_16 byte_div_16])
  from 2 have m: "unat a mod 16 = unat b mod 16"
    by (intro hex_chars_nth_inj) simp_all
  have "unat a = 16 * (unat a div 16) + unat a mod 16" by simp
  also have "\<dots> = 16 * (unat b div 16) + unat b mod 16" by (simp only: d m)
  also have "\<dots> = unat b" by simp
  finally show "a = b" by (simp add: word_unat_eq_iff)
qed

lemma to_hex_Cons: "to_hex (b # bs) = hex_byte b @ to_hex bs"
  by (simp add: to_hex_def)

lemma to_hex_Nil: "to_hex [] = []"
  by (simp add: to_hex_def)

lemma length_hex_byte: "length (hex_byte b) = 2"
  by (simp add: hex_byte_def)

lemma length_to_hex: "length (to_hex bs) = 2 * length bs"
  by (induction bs) (simp_all add: to_hex_Cons to_hex_Nil length_hex_byte)

lemma to_hex_inj: "to_hex a = to_hex b \<Longrightarrow> a = b"
proof (induction a arbitrary: b)
  case Nil
  then have "length (to_hex b) = 0" by (simp add: to_hex_Nil)
  then show ?case by (simp add: length_to_hex)
next
  case (Cons x xs)
  show ?case
  proof (cases b)
    case Nil
    with Cons.prems have "length (to_hex (x # xs)) = 0" by (simp add: to_hex_Nil)
    then show ?thesis by (simp add: length_to_hex)
  next
    case (Cons y ys)
    with Cons.prems have "hex_byte x @ to_hex xs = hex_byte y @ to_hex ys"
      by (simp add: to_hex_Cons)
    then have "hex_byte x = hex_byte y \<and> to_hex xs = to_hex ys"
      by (simp add: append_eq_append_conv length_hex_byte)
    with Cons.IH[of ys] hex_byte_inj[of x y] Cons show ?thesis by simp
  qed
qed

lemma set_hex_byte: "set (hex_byte b) \<subseteq> set hex_chars"
  by (simp add: hex_byte_def hex_chars_nth_mem byte_div_16)

lemma set_to_hex: "set (to_hex bs) \<subseteq> set hex_chars"
  using set_hex_byte by (induction bs) (simp_all add: to_hex_Cons to_hex_Nil)

lemma length_next_bytes: "length (next_bytes n w) = n"
  by (simp add: next_bytes_def)

lemma hex256_to_hex: "length bs = 32 \<Longrightarrow> hex256 (to_hex bs)"
  by (simp add: hex256_def length_to_hex set_to_hex)

lemma length_uuid_format: "length b = 16 \<Longrightarrow> length (uuid_format b) = 36"
  by (simp add: uuid_format_def length_to_hex)

lemma uuid_format_hyphen: "length b = 16 \<Longrightarrow> uuid_format b ! 8 = CHR ''-''"
  by (simp add: uuid_format_def nth_append length_to_hex)

lemma length_uuid_stamp: "length (uuid_stamp b) = length b"
  by (simp add: uuid_stamp_def Let_def)

lemma hyphen_not_hex: "CHR ''-'' \<notin> set hex_chars"
  by (simp add: hex_chars_def)

lemma uuid_not_hex256: "length b = 16 \<Longrightarrow> \<not> hex256 (uuid_format b)"
  by (simp add: hex256_def length_uuid_format)


lemma nat_stamp: "(((n::nat) AND 15) OR 64) div 16 = 4"
proof -
  have "(((n::nat) AND 15) OR 64) div 16 = drop_bit 4 ((n AND 15) OR 64)"
    by (simp add: drop_bit_eq_div)
  also have "\<dots> = (drop_bit 4 n AND drop_bit 4 15) OR drop_bit 4 64"
    by simp
  also have "drop_bit 4 (15::nat) = 0" by (simp add: drop_bit_eq_div)
  also have "drop_bit 4 (64::nat) = 4" by (simp add: drop_bit_eq_div)
  finally show ?thesis by simp
qed

lemma version_nibble: "unat (((x::8 word) AND 0x0f) OR 0x40) div 16 = 4"
  by (simp add: unsigned_and_eq unsigned_or_eq nat_stamp)

lemma uuid_stamp_6: "length b = 16 \<Longrightarrow> uuid_stamp b ! 6 = ((b ! 6) AND 0x0f) OR 0x40"
  by (simp add: uuid_stamp_def Let_def)

lemma uuid_format_14:
  assumes "length c = 16"
  shows "uuid_format c ! 14 = hex_chars ! (unat (c ! 6) div 16)"
proof -
  from assms have "drop 6 c = c ! 6 # drop 7 c"
    by (simp add: Cons_nth_drop_Suc[symmetric])
  then have "to_hex (take 2 (drop 6 c)) ! 0 = hex_chars ! (unat (c ! 6) div 16)"
    by (simp add: to_hex_Cons hex_byte_def)
  with assms show ?thesis
    by (simp add: uuid_format_def nth_append length_to_hex)
qed

lemma uuid_version: "length b = 16 \<Longrightarrow> uuid_format (uuid_stamp b) ! 14 = CHR ''4''"
  by (simp add: uuid_format_14 length_uuid_stamp uuid_stamp_6 version_nibble hex_chars_def)

lemma randomBytes_run:
  "randomBytes n w = (Inr (next_bytes n w), w\<lparr>drawn := drawn w + n\<rparr>)"
  by (simp add: randomBytes_def next_bytes_def)

lemma next_bytes_db [simp]: "next_bytes n (w\<lparr>db := d\<rparr>) = next_bytes n w"
  by (simp add: next_bytes_def)

lemma next_bytes_spend [simp]: "next_bytes n (spend w) = next_bytes n w"
  by (simp add: next_bytes_def)

lemma generateEmailVerificationToken_result:
  "budget w \<noteq> Some 0 \<Longrightarrow>
   fst (User_generateEmailVerificationToken cfg userId now w) = Inr (to_hex (next_bytes 32 w))"
  by (simp add: User_generateEmailVerificationToken_def bindE_def randomBytes_run Let_def
      query_def returnE_def)

lemma RefreshToken_create_result:
  assumes "budget w \<noteq> Some 0"
    and "userId \<in> set (map uid (auth_users (db w)))"
    and "uuid_format (uuid_stamp (next_bytes 16 w)) \<notin> set (map rt_token (auth_refresh_tokens (db w)))"
  shows "fst (RefreshToken_create userId days now w) =
     Inr \<lparr>rt_user_id = userId, rt_token = uuid_format (uuid_stamp (next_bytes 16 w)),
          rt_expires_at = now + days_ms days, rt_revoked = False\<rparr>"
  using assms
  by (simp add: RefreshToken_create_def uuidv4_def bindE_def randomBytes_run returnE_def Let_def
      query_def insert_refresh_def)

lemma invalidated_tokens:
  "map pr_token (auth_password_resets (invalidated userId d)) = map pr_token (auth_password_resets d)"
  by (simp add: invalidated_def update_resets_def mark_used_def comp_def if_distrib cong: if_cong)

lemma invalidated_users [simp]: "auth_users (invalidated userId d) = auth_users d"
  by (simp add: invalidated_def update_resets_def)

lemma invalidateForUser_run:
  "PasswordReset_invalidateForUser userId w =
     (if budget w = Some 0 then (Inl StoreError, w)
      else (Inr (length (filter (\<lambda>r. pr_user_id r = userId \<and> pr_used r = False)
                           (auth_password_resets (db w)))),
            (spend w)\<lparr>db := invalidated userId (db w)\<rparr>))"
  by (simp add: PasswordReset_invalidateForUser_def bindE_def query_def returnE_def invalidated_def)

lemma PasswordReset_create_run:
  assumes "budget w \<noteq> Some 0" and "budget (spend w) \<noteq> Some 0"
  shows "fst (PasswordReset_create cfg userId now w) =
           (case insert_reset (new_reset cfg userId now w) (invalidated userId (db w)) of
              None \<Rightarrow> Inl StoreError | Some (r, d) \<Rightarrow> Inr r)"
    and "db (snd (PasswordReset_create cfg userId now w)) =
           (case insert_reset (new_reset cfg userId now w) (invalidated userId (db w)) of
              None \<Rightarrow> invalidated userId (db w) | Some (r, d) \<Rightarrow> d)"
  using assms
  by (simp_all add: PasswordReset_create_def bindE_def invalidateForUser_run randomBytes_run
      Let_def query_def new_reset_def split: option.splits)

lemma PasswordReset_create_result:
  assumes "budget w \<noteq> Some 0" and "budget (spend w) \<noteq> Some 0"
    and "userId \<in> set (map uid (auth_users (db w)))"
    and "to_hex (next_bytes 32 w) \<notin> set (map pr_token (auth_password_resets (db w)))"
  shows "fst (PasswordReset_create cfg userId now w) = Inr (new_reset cfg userId now w)"
    and "auth_password_resets (db (snd (PasswordReset_create cfg userId now w))) =
           auth_password_resets (invalidated userId (db w)) @ [new_reset cfg userId now w]"
proof -
  from assms(3,4)
  have "insert_reset (new_reset cfg userId now w) (invalidated userId (db w)) =
     Some (new_reset cfg userId now w,
           (invalidated userId (db w))\<lparr>auth_password_resets :=
              auth_password_resets (invalidated userId (db w)) @ [new_reset cfg userId now w]\<rparr>)"
    unfolding insert_reset_def invalidated_tokens invalidated_users
    by (simp add: new_reset_def)
  then show "fst (PasswordReset_create cfg userId now w) = Inr (new_reset cfg userId now w)"
    and "auth_password_resets (db (snd (PasswordReset_create cfg userId now w))) =
           auth_password_resets (invalidated userId (db w)) @ [new_reset cfg userId now w]"
    by (simp_all add: PasswordReset_create_run[OF assms(1,2)])
qed

text \<open>
  C5, as the code has it. While the store answers, a password-reset token and an
  email-verification token are the hexadecimal form of the next 32 random bytes: 64
  hexadecimal digits, and the encoding is one-to-one, so the token carries the 256 bits of the
  bytes. A refresh token is a version-4 UUID made from the next 16 random bytes: 36
  characters with hyphens between the groups and the version digit 4 in place of four random
  bits; it is not a string of 64 hexadecimal digits.
\<close>

theorem token_formats:
  assumes "accepts 2 w" and "userId \<in> set (map uid (auth_users (db w)))"
  shows
   "(to_hex (next_bytes 32 w) \<notin> set (map pr_token (auth_password_resets (db w))) \<longrightarrow>
       fst (PasswordReset_create cfg userId now w) =
         Inr \<lparr>pr_user_id = userId, pr_token = to_hex (next_bytes 32 w),
              pr_expires_at = now + hours_ms (TOKEN_EXPIRY_HOURS cfg), pr_used = False\<rparr>)
  \<and> fst (User_generateEmailVerificationToken cfg userId now w) = Inr (to_hex (next_bytes 32 w))
  \<and> hex256 (to_hex (next_bytes 32 w))
  \<and> (\<forall>bs bs'. to_hex bs = to_hex bs' \<longrightarrow> bs = bs')
  \<and> (uuid_format (uuid_stamp (next_bytes 16 w)) \<notin> set (map rt_token (auth_refresh_tokens (db w))) \<longrightarrow>
       fst (RefreshToken_create userId days now w) =
         Inr \<lparr>rt_user_id = userId, rt_token = uuid_format (uuid_stamp (next_bytes 16 w)),
              rt_expires_at = now + days_ms days, rt_revoked = False\<rparr>)
  \<and> length (uuid_format (uuid_stamp (next_bytes 16 w))) = 36
  \<and> uuid_format (uuid_stamp (next_bytes 16 w)) ! 8 = CHR ''-''
  \<and> uuid_format (uuid_stamp (next_bytes 16 w)) ! 14 = CHR ''4''
  \<and> \<not> hex256 (uuid_format (uuid_stamp (next_bytes 16 w)))"
proof -
  from assms(1) have b: "budget w \<noteq> Some 0" "budget (spend w) \<noteq> Some 0"
    by (auto simp: accepts_def spend_def split: option.splits)
  have l: "length (uuid_stamp (next_bytes 16 w)) = 16"
    by (simp add: length_uuid_stamp length_next_bytes)
  have 1: "to_hex (next_bytes 32 w) \<notin> set (map pr_token (auth_password_resets (db w))) \<longrightarrow>
       fst (PasswordReset_create cfg userId now w) =
         Inr \<lparr>pr_user_id = userId, pr_token = to_hex (next_bytes 32 w),
              pr_expires_at = now + hours_ms (TOKEN_EXPIRY_HOURS cfg), pr_used = False\<rparr>"
    using PasswordReset_create_result(1)[OF b assms(2), of cfg now] by (simp add: new_reset_def)
  have 2: "fst (User_generateEmailVerificationToken cfg userId now w) = Inr (to_hex (next_bytes 32 w))"
    by (rule generateEmailVerificationToken_result[OF b(1)])
  have 3: "hex256 (to_hex (next_bytes 32 w))"
    by (simp add: hex256_to_hex length_next_bytes)
  have 4: "\<forall>bs bs'. to_hex bs = to_hex bs' \<longrightarrow> bs = bs'"
    using to_hex_inj by blast
  have 5: "uuid_format (uuid_stamp (next_bytes 16 w)) \<notin> set (map rt_token (auth_refresh_tokens (db w))) \<longrightarrow>
       fst (RefreshToken_create userId days now w) =
         Inr \<lparr>rt_user_id = userId, rt_token = uuid_format (uuid_stamp (next_bytes 16 w)),
              rt_expires_at = now + days_ms days, rt_revoked = False\<rparr>"
    using RefreshToken_create_result[OF b(1) assms(2), of days now] by blast
  have 6: "length (uuid_format (uuid_stamp (next_bytes 16 w))) = 36"
    by (rule length_uuid_format[OF l])
  have 7: "uuid_format (uuid_stamp (next_bytes 16 w)) ! 8 = CHR ''-''"
    by (rule uuid_format_hyphen[OF l])
  have 8: "uuid_format (uuid_stamp (next_bytes 16 w)) ! 14 = CHR ''4''"
    by (rule uuid_version) (simp add: length_next_bytes)
  have 9: "\<not> hex256 (uuid_format (uuid_stamp (next_bytes 16 w)))"
    by (rule uuid_not_hex256[OF l])
  from 1 2 3 4 5 6 7 8 9 show ?thesis by (intro conjI)
qed


lemma demo_next_32:
  "to_hex (next_bytes 32 (demo_world b)) =
     ''000102030405060708090a0b0c0d0e0f101112131415161718191a1b1c1d1e1f''"
  by code_simp

lemma demo_next_uuid:
  "uuid_format (uuid_stamp (next_bytes 16 (demo_world b))) = ''00010203-0405-4607-8809-0a0b0c0d0e0f''"
  by code_simp


lemma demo_u1: "''u1'' \<in> set (map uid (auth_users (db (demo_world b))))"
  by (simp add: demo_world_def demo_db_def alice_def)

theorem token_formats_witness:
  "accepts 2 (demo_world None) \<and> ''u1'' \<in> set (map uid (auth_users (db (demo_world None))))
   \<and> fst (PasswordReset_create default_config ''u1'' 1000 (demo_world None)) =
        Inr \<lparr>pr_user_id = ''u1'',
             pr_token = ''000102030405060708090a0b0c0d0e0f101112131415161718191a1b1c1d1e1f'',
             pr_expires_at = 3601000, pr_used = False\<rparr>
   \<and> fst (User_generateEmailVerificationToken default_config ''u1'' 1000 (demo_world None)) =
        Inr ''000102030405060708090a0b0c0d0e0f101112131415161718191a1b1c1d1e1f''
   \<and> hex256 ''000102030405060708090a0b0c0d0e0f101112131415161718191a1b1c1d1e1f''
   \<and> fst (RefreshToken_create ''u1'' 30 1000 (demo_world None)) =
        Inr \<lparr>rt_user_id = ''u1'', rt_token = ''00010203-0405-4607-8809-0a0b0c0d0e0f'',
             rt_expires_at = 2592001000, rt_revoked = False\<rparr>
   \<and> \<not> hex256 ''00010203-0405-4607-8809-0a0b0c0d0e0f''"
proof -
  have a: "accepts 2 (demo_world None)" by (simp add: accepts_def demo_world_def)
  have f1: "''000102030405060708090a0b0c0d0e0f101112131415161718191a1b1c1d1e1f''
      \<notin> set (map pr_token (auth_password_resets (db (demo_world None))))"
    by (simp add: demo_world_def demo_db_def tokA_row_def)
  have f2: "''00010203-0405-4607-8809-0a0b0c0d0e0f''
      \<notin> set (map rt_token (auth_refresh_tokens (db (demo_world None))))"
    by (simp add: demo_world_def demo_db_def)
  have t: "1000 + hours_ms (TOKEN_EXPIRY_HOURS default_config) = 3601000"
    "1000 + days_ms 30 = 2592001000"
    by (simp_all add: hours_ms_def days_ms_def default_config_def)
  from token_formats[OF a demo_u1, of default_config 1000 30] f1 f2 a demo_u1[of None]
  show ?thesis by (simp add: demo_next_32 demo_next_uuid t)
qed

text \<open>
  C5 as stated has every refresh token a random hexadecimal string of 256 bits. The refresh
  token created in the example store is 36 characters long and contains hyphens.
\<close>

theorem refresh_token_is_uuid:
  "fst (RefreshToken_create ''u1'' 30 1000 (demo_world None)) =
     Inr \<lparr>rt_user_id = ''u1'', rt_token = ''00010203-0405-4607-8809-0a0b0c0d0e0f'',
          rt_expires_at = 2592001000, rt_revoked = False\<rparr>
   \<and> length ''00010203-0405-4607-8809-0a0b0c0d0e0f'' = 36
   \<and> CHR ''-'' \<in> set ''00010203-0405-4607-8809-0a0b0c0d0e0f''
   \<and> CHR ''-'' \<notin> set hex_chars
   \<and> \<not> hex256 ''00010203-0405-4607-8809-0a0b0c0d0e0f''"
proof -
  have b: "budget (demo_world None) \<noteq> Some 0" by (simp add: demo_world_def)
  have f2: "uuid_format (uuid_stamp (next_bytes 16 (demo_world None)))
      \<notin> set (map rt_token (auth_refresh_tokens (db (demo_world None))))"
    unfolding demo_next_uuid by (simp add: demo_world_def demo_db_def)
  have t: "1000 + days_ms 30 = 2592001000" by (simp add: days_ms_def)
  have 1: "fst (RefreshToken_create ''u1'' 30 1000 (demo_world None)) =
     Inr \<lparr>rt_user_id = ''u1'', rt_token = ''00010203-0405-4607-8809-0a0b0c0d0e0f'',
          rt_expires_at = 2592001000, rt_revoked = False\<rparr>"
    using RefreshToken_create_result[OF b demo_u1 f2, of 30 1000]
    by (simp add: demo_next_uuid t)
  have 2: "length ''00010203-0405-4607-8809-0a0b0c0d0e0f'' = 36" by simp
  have 3: "CHR ''-'' \<in> set ''00010203-0405-4607-8809-0a0b0c0d0e0f''" by simp
  have 4: "\<not> hex256 ''00010203-0405-4607-8809-0a0b0c0d0e0f''" by (simp add: hex256_def)
  from 1 2 3 4 hyphen_not_hex show ?thesis by (intro conjI)
qed

section \<open>Issuing a reset token\<close>














lemma new_reset_user [simp]: "pr_user_id (new_reset cfg userId now w) = userId"
  by (simp add: new_reset_def)


















end
